theory Spec2Isabelle
  imports Main "HOL-Library.Sublist"
begin

section \<open>Python values and the built-ins that \<open>todo.py\<close> calls\<close>

text \<open>
  A \<open>pyval\<close> is what \<open>json.load\<close> hands to the program and what \<open>asdict\<close> hands to
  \<open>json.dump\<close>: \<open>None\<close>, booleans, integers (unbounded, as in Python), strings, lists
  and dictionaries with string keys. A dictionary is an association list in insertion
  order; a lookup takes the first binding of a key. A \<open>string\<close> is read as a sequence
  of code points below 256. JSON numbers with a fraction or an exponent (Python floats)
  are not part of this model.
\<close>

datatype pyval =
    PNone
  | PBool bool
  | PInt int
  | PStr string
  | PList "pyval list"
  | PDict "(string \<times> pyval) list"

text \<open>
  The exception classes that occur. \<open>IOError\<close> is Python's alias of \<open>OSError\<close>;
  \<open>JSONDecodeError\<close> is a subclass of \<open>ValueError\<close>, \<open>KeyError\<close> one of
  \<open>LookupError\<close>. \<open>KeyboardInterrupt\<close> stands for the classes outside \<open>Exception\<close>.
\<close>

datatype exn =
    TypeError
  | AttributeError
  | KeyError
  | LookupError
  | ValueError
  | JSONDecodeError
  | OSError
  | KeyboardInterrupt

text \<open>An exception ends the evaluation; a value goes on to the next step.\<close>

definition propagate :: "exn + 'a \<Rightarrow> ('a \<Rightarrow> exn + 'b) \<Rightarrow> exn + 'b" where
  "propagate m f = (case m of Inl e \<Rightarrow> Inl e | Inr x \<Rightarrow> f x)"

fun is_ValueError :: "exn \<Rightarrow> bool" where
  "is_ValueError ValueError = True"
| "is_ValueError JSONDecodeError = True"
| "is_ValueError _ = False"

fun is_Exception :: "exn \<Rightarrow> bool" where
  "is_Exception KeyboardInterrupt = False"
| "is_Exception _ = True"

subsection \<open>Characters\<close>

definition is_digit :: "char \<Rightarrow> bool" where
  "is_digit c = (48 \<le> (of_char c :: nat) \<and> (of_char c :: nat) \<le> 57)"

definition digit_val :: "char \<Rightarrow> int" where
  "digit_val c = int (of_char c) - 48"

definition in_range :: "char \<Rightarrow> char \<Rightarrow> char \<Rightarrow> bool" where
  "in_range lo hi c = ((of_char lo :: nat) \<le> of_char c \<and> (of_char c :: nat) \<le> of_char hi)"

text \<open>The characters \<open>int()\<close> skips around a literal: ASCII white space, U+0085, U+00A0.\<close>

definition int_space :: "char \<Rightarrow> bool" where
  "int_space c = (let n = (of_char c :: nat) in (9 \<le> n \<and> n \<le> 13) \<or> n = 32 \<or> n = 133 \<or> n = 160)"

text \<open>
  \<open>str.lower\<close> on strings of code points below 256, the strings of this model: there
  it works character by character, \<open>A\<close>-\<open>Z\<close> and the capital letters U+00C0-U+00DE
  (U+00D7, the multiplication sign, apart) move up by 32, and the result has the length
  of the argument. Beyond U+00FF \<open>str.lower\<close> depends on the neighbours of a character
  (a capital sigma at the end of a word becomes U+03C2, elsewhere U+03C3) and can
  lengthen the string (U+0130 becomes two code points); what is proved of \<open>lower\<close> is
  proved of strings below U+0100 only.
\<close>

definition lower_char :: "char \<Rightarrow> char" where
  "lower_char c =
     (let n = (of_char c :: nat)
      in if (65 \<le> n \<and> n \<le> 90) \<or> (192 \<le> n \<and> n \<le> 222 \<and> n \<noteq> 215)
         then char_of (n + 32) else c)"

definition lower :: "string \<Rightarrow> string" where
  "lower s = map lower_char s"

subsection \<open>\<open>str()\<close> and \<open>repr()\<close>\<close>

fun digit_char :: "nat \<Rightarrow> char" where
  "digit_char n = char_of (48 + n mod 10)"

fun nat_digits :: "nat \<Rightarrow> string" where
  "nat_digits n = (if n < 10 then [digit_char n] else nat_digits (n div 10) @ [digit_char n])"

declare nat_digits.simps [simp del]

definition str_int :: "int \<Rightarrow> string" where
  "str_int i = (if i < 0 then CHR ''-'' # nat_digits (nat (- i)) else nat_digits (nat i))"

definition hex_digit :: "nat \<Rightarrow> char" where
  "hex_digit n = (if n < 10 then char_of (48 + n) else char_of (87 + n))"

text \<open>
  \<open>repr\<close> of a string: control characters, U+007F-U+00A0 and U+00AD are escaped, the
  quote is \<open>'\<close> unless the string holds a \<open>'\<close> and no \<open>"\<close>.
\<close>

definition repr_char :: "char \<Rightarrow> char \<Rightarrow> string" where
  "repr_char quote c =
     (let n = (of_char c :: nat)
      in if c = quote \<or> c = CHR 0x5C then [CHR 0x5C, c]
         else if n = 9 then [CHR 0x5C, CHR ''t'']
         else if n = 10 then [CHR 0x5C, CHR ''n'']
         else if n = 13 then [CHR 0x5C, CHR ''r'']
         else if n < 32 \<or> (127 \<le> n \<and> n \<le> 160) \<or> n = 173
           then [CHR 0x5C, CHR ''x'', hex_digit (n div 16), hex_digit (n mod 16)]
         else [c])"

definition repr_str :: "string \<Rightarrow> string" where
  "repr_str s =
     (let quote = (if CHR 0x27 \<in> set s \<and> CHR 0x22 \<notin> set s then CHR 0x22 else CHR 0x27)
      in quote # concat (map (repr_char quote) s) @ [quote])"

fun join :: "string \<Rightarrow> string list \<Rightarrow> string" where
  "join sep [] = []"
| "join sep [x] = x"
| "join sep (x # y # ys) = x @ sep @ join sep (y # ys)"

fun repr :: "pyval \<Rightarrow> string" where
  "repr PNone = ''None''"
| "repr (PBool b) = (if b then ''True'' else ''False'')"
| "repr (PInt i) = str_int i"
| "repr (PStr s) = repr_str s"
| "repr (PList xs) = ''['' @ join '', '' (map repr xs) @ '']''"
| "repr (PDict kvs) =
     ''{'' @ join '', '' (map (\<lambda>kv. repr_str (fst kv) @ '': '' @ repr (snd kv)) kvs) @ ''}''"

fun str :: "pyval \<Rightarrow> string" where
  "str (PStr s) = s"
| "str v = repr v"

subsection \<open>\<open>int()\<close>, \<open>bool()\<close>, \<open>list()\<close>, subscription and \<open>dict.get\<close>\<close>

text \<open>
  Digits with single underscores between them, as \<open>int()\<close> reads them in base 10;
  \<open>acc\<close> is the value so far, and the first argument tells whether the last character
  was a digit. The interpreter's configurable limit on the number of digits (4300 by
  default since Python 3.11) is not modelled.
\<close>

fun int_digits :: "bool \<Rightarrow> int \<Rightarrow> string \<Rightarrow> int option" where
  "int_digits after_digit acc [] = (if after_digit then Some acc else None)"
| "int_digits after_digit acc (c # cs) =
     (if is_digit c then int_digits True (acc * 10 + digit_val c) cs
      else if c = CHR ''_'' \<and> after_digit \<and> cs \<noteq> [] \<and> is_digit (hd cs) then int_digits False acc cs
      else None)"

definition strip_space :: "string \<Rightarrow> string" where
  "strip_space s = rev (dropWhile int_space (rev (dropWhile int_space s)))"

definition int_of_str :: "string \<Rightarrow> int option" where
  "int_of_str s =
     (case strip_space s of
        [] \<Rightarrow> None
      | c # cs \<Rightarrow>
          if c = CHR ''-'' then map_option uminus (int_digits False 0 cs)
          else if c = CHR ''+'' then int_digits False 0 cs
          else int_digits False 0 (c # cs))"

fun py_int :: "pyval \<Rightarrow> exn + int" where
  "py_int (PInt i) = Inr i"
| "py_int (PBool b) = Inr (if b then 1 else 0)"
| "py_int (PStr s) = (case int_of_str s of None \<Rightarrow> Inl ValueError | Some i \<Rightarrow> Inr i)"
| "py_int _ = Inl TypeError"

fun py_bool :: "pyval \<Rightarrow> bool" where
  "py_bool PNone = False"
| "py_bool (PBool b) = b"
| "py_bool (PInt i) = (i \<noteq> 0)"
| "py_bool (PStr s) = (s \<noteq> [])"
| "py_bool (PList xs) = (xs \<noteq> [])"
| "py_bool (PDict kvs) = (kvs \<noteq> [])"

text \<open>The keys of a dictionary, each once, in the order of their first binding.\<close>

fun keys :: "(string \<times> pyval) list \<Rightarrow> string list" where
  "keys [] = []"
| "keys ((k, v) # kvs) = k # filter (\<lambda>k'. k' \<noteq> k) (keys kvs)"

fun py_list :: "pyval \<Rightarrow> exn + pyval list" where
  "py_list (PList xs) = Inr xs"
| "py_list (PStr s) = Inr (map (\<lambda>c. PStr [c]) s)"
| "py_list (PDict kvs) = Inr (map PStr (keys kvs))"
| "py_list _ = Inl TypeError"

text \<open>\<open>d[k]\<close> for a string \<open>k\<close>: only a dictionary can be subscripted by a string.\<close>

fun subscript :: "pyval \<Rightarrow> string \<Rightarrow> exn + pyval" where
  "subscript (PDict kvs) k = (case map_of kvs k of None \<Rightarrow> Inl KeyError | Some v \<Rightarrow> Inr v)"
| "subscript _ k = Inl TypeError"

text \<open>\<open>d.get(k, default)\<close>: only a dictionary has the method (\<open>AttributeError\<close> otherwise,
  which \<open>from_dict\<close> never reaches: \<open>d["id"]\<close> has failed before).\<close>

fun get :: "pyval \<Rightarrow> string \<Rightarrow> pyval \<Rightarrow> exn + pyval" where
  "get (PDict kvs) k dflt = (case map_of kvs k of None \<Rightarrow> Inr dflt | Some v \<Rightarrow> Inr v)"
| "get _ k dflt = Inl AttributeError"

section \<open>Dates: \<open>datetime.strptime(d, "%Y-%m-%d")\<close>\<close>

text \<open>
  \<open>strptime\<close> turns the format into the regular expression
  \<^verbatim>\<open>(?P<Y>\d\d\d\d)-(?P<m>1[0-2]|0[1-9]|[1-9])-(?P<d>3[0-1]|[1-2]\d|0[1-9]|[1-9]| [1-9])\<close>,
  matches it at the start of the string, and fails when the match does not reach the
  end of the string. A matcher returns its matches in the order in which the
  backtracking engine tries them, each with the rest of the input; the engine's match
  is the first one.
\<close>

definition lit :: "char \<Rightarrow> string \<Rightarrow> string list" where
  "lit c s = (case s of [] \<Rightarrow> [] | a # r \<Rightarrow> if a = c then [r] else [])"

definition one :: "(char \<Rightarrow> bool) \<Rightarrow> string \<Rightarrow> (string \<times> string) list" where
  "one p s = (case s of [] \<Rightarrow> [] | a # r \<Rightarrow> if p a then [([a], r)] else [])"

definition two :: "(char \<Rightarrow> bool) \<Rightarrow> (char \<Rightarrow> bool) \<Rightarrow> string \<Rightarrow> (string \<times> string) list" where
  "two p q s =
     (case s of
        a # b # r \<Rightarrow> if p a \<and> q b then [([a, b], r)] else []
      | _ \<Rightarrow> [])"

definition re_Y :: "string \<Rightarrow> (string \<times> string) list" where
  "re_Y s = (if 4 \<le> length s \<and> list_all is_digit (take 4 s) then [(take 4 s, drop 4 s)] else [])"

definition re_m :: "string \<Rightarrow> (string \<times> string) list" where
  "re_m s =
     two (\<lambda>c. c = CHR ''1'') (in_range CHR ''0'' CHR ''2'') s
     @ two (\<lambda>c. c = CHR ''0'') (in_range CHR ''1'' CHR ''9'') s
     @ one (in_range CHR ''1'' CHR ''9'') s"

definition re_d :: "string \<Rightarrow> (string \<times> string) list" where
  "re_d s =
     two (\<lambda>c. c = CHR ''3'') (in_range CHR ''0'' CHR ''1'') s
     @ two (in_range CHR ''1'' CHR ''2'') is_digit s
     @ two (\<lambda>c. c = CHR ''0'') (in_range CHR ''1'' CHR ''9'') s
     @ one (in_range CHR ''1'' CHR ''9'') s
     @ two (\<lambda>c. c = CHR '' '') (in_range CHR ''1'' CHR ''9'') s"

definition re_date :: "string \<Rightarrow> (string \<times> string \<times> string \<times> string) list" where
  "re_date s =
     [(y, m, d, r5).
        (y, r1) \<leftarrow> re_Y s, r2 \<leftarrow> lit CHR ''-'' r1,
        (m, r3) \<leftarrow> re_m r2, r4 \<leftarrow> lit CHR ''-'' r3,
        (d, r5) \<leftarrow> re_d r4]"

definition is_leap :: "int \<Rightarrow> bool" where
  "is_leap y = (y mod 4 = 0 \<and> (y mod 100 \<noteq> 0 \<or> y mod 400 = 0))"

definition days_in_month :: "int \<Rightarrow> int \<Rightarrow> int" where
  "days_in_month y m =
     (if m = 2 then (if is_leap y then 29 else 28)
      else if m = 4 \<or> m = 6 \<or> m = 9 \<or> m = 11 then 30 else 31)"

text \<open>\<open>datetime.date(year, month, day)\<close>: years 1 to 9999, a day that the month has.\<close>

definition date :: "int \<Rightarrow> int \<Rightarrow> int \<Rightarrow> exn + (int \<times> int \<times> int)" where
  "date y m d =
     (if y < 1 \<or> 9999 < y then Inl ValueError
      else if m < 1 \<or> 12 < m then Inl ValueError
      else if d < 1 \<or> days_in_month y m < d then Inl ValueError
      else Inr (y, m, d))"

definition strptime :: "string \<Rightarrow> exn + (int \<times> int \<times> int)" where
  "strptime s =
     (case re_date s of
        [] \<Rightarrow> Inl ValueError
      | (y, m, d, rest) # _ \<Rightarrow>
          if rest \<noteq> [] then Inl ValueError
          else (case (int_of_str y, int_of_str m, int_of_str d) of
                  (Some yi, Some mi, Some di) \<Rightarrow> date yi mi di
                | _ \<Rightarrow> Inl ValueError))"

section \<open>Domain classes\<close>

text \<open>
  The dataclass \<open>Task\<close>. Its fields \<open>id\<close> and \<open>done\<close> are \<open>task_id\<close> and
  \<open>done_flag\<close> here. \<open>from_dict\<close> passes \<open>due\<close> through as it finds it and only turns
  \<open>tags\<close> into a list, so both fields hold Python values of any type.
\<close>

record task =
  task_id :: int
  title :: string
  description :: string
  created_at :: string
  due :: pyval
  tags :: "pyval list"
  done_flag :: bool

definition to_serializable :: "task \<Rightarrow> pyval" where
  "to_serializable t =
     PDict [(''id'', PInt (task_id t)),
            (''title'', PStr (title t)),
            (''description'', PStr (description t)),
            (''created_at'', PStr (created_at t)),
            (''due'', due t),
            (''tags'', PList (tags t)),
            (''done'', PBool (done_flag t))]"

text \<open>
  The body of the \<open>try\<close> in \<open>from_dict\<close>: the arguments of \<open>Task(...)\<close> are evaluated
  in the order written and the first exception ends the evaluation. \<open>now\<close> is what
  \<open>datetime.now(timezone.utc).isoformat()\<close> returns.
\<close>

definition from_dict_body :: "string \<Rightarrow> pyval \<Rightarrow> exn + task" where
  "from_dict_body now d =
     propagate (subscript d ''id'') (\<lambda>v_id.
     propagate (py_int v_id) (\<lambda>i.
     propagate (subscript d ''title'') (\<lambda>v_title.
     propagate (get d ''description'' (PStr [])) (\<lambda>v_descr.
     propagate (get d ''created_at'' (PStr now)) (\<lambda>v_created.
     propagate (get d ''due'' PNone) (\<lambda>v_due.
     propagate (get d ''tags'' (PList [])) (\<lambda>v_tags.
     propagate (py_list v_tags) (\<lambda>ts.
     propagate (get d ''done'' (PBool False)) (\<lambda>v_done.
       Inr \<lparr>task_id = i, title = str v_title, description = str v_descr,
            created_at = str v_created, due = v_due, tags = ts,
            done_flag = py_bool v_done\<rparr>)))))))))"

text \<open>\<open>except Exception as e: raise ValueError(...)\<close>.\<close>

definition from_dict :: "string \<Rightarrow> pyval \<Rightarrow> exn + task" where
  "from_dict now d =
     (case from_dict_body now d of
        Inl e \<Rightarrow> if is_Exception e then Inl ValueError else Inl e
      | Inr t \<Rightarrow> Inr t)"

text \<open>
  \<open>[Task.from_dict(item) for item in data]\<close>: the first failure ends the
  comprehension. \<open>now k\<close> is the clock at the \<open>k\<close>-th item.
\<close>

fun from_dicts :: "(nat \<Rightarrow> string) \<Rightarrow> pyval list \<Rightarrow> exn + task list" where
  "from_dicts now [] = Inr []"
| "from_dicts now (d # ds) =
     propagate (from_dict (now 0) d) (\<lambda>t.
     propagate (from_dicts (\<lambda>k. now (Suc k)) ds) (\<lambda>ts. Inr (t # ts)))"

section \<open>The file system and the diagnostic channel\<close>

text \<open>
  A path holds nothing, something that cannot be opened and read (a directory, a file
  without permission), text that \<open>json.load\<close> rejects, or a JSON document, which is
  kept as the value \<open>json.load\<close> returns for it: \<open>json.dump\<close> followed by
  \<open>json.load\<close> is the identity on \<open>pyval\<close>. \<open>writable p\<close> tells whether
  \<open>open(p, "w")\<close> succeeds, \<open>replaceable p\<close> whether \<open>os.replace(_, p)\<close> does.
  \<open>stderr\<close> collects what the store prints.
\<close>

datatype file_content = Unreadable | Not_json | Json pyval

datatype diag = Warning_failed_to_load exn | Error_reading exn

record world =
  files :: "string \<Rightarrow> file_content option"
  writable :: "string \<Rightarrow> bool"
  replaceable :: "string \<Rightarrow> bool"
  stderr :: "diag list"

text \<open>\<open>with open(p, "r", encoding="utf-8") as f: data = json.load(f)\<close>.\<close>

definition read_json :: "world \<Rightarrow> string \<Rightarrow> exn + pyval" where
  "read_json w p =
     (case files w p of
        None \<Rightarrow> Inl OSError
      | Some Unreadable \<Rightarrow> Inl OSError
      | Some Not_json \<Rightarrow> Inl JSONDecodeError
      | Some (Json v) \<Rightarrow> Inr v)"

text \<open>\<open>with open(p, "w", encoding="utf-8") as f: json.dump(v, f, ...)\<close>.\<close>

definition write_json :: "world \<Rightarrow> string \<Rightarrow> pyval \<Rightarrow> exn + world" where
  "write_json w p v =
     (if writable w p then Inr (w\<lparr>files := (files w)(p \<mapsto> Json v)\<rparr>) else Inl OSError)"

section \<open>Persistence and manager: \<open>TodoDB\<close>\<close>

record todo_db =
  path :: string
  tasks :: "task list"

definition dump :: "todo_db \<Rightarrow> pyval" where
  "dump db = PList (map to_serializable (tasks db))"

text \<open>
  A method returns what it returns or raises, together with the store and the world as
  it leaves them: an exception does not undo what was done before it.
\<close>

definition load_body :: "(nat \<Rightarrow> string) \<Rightarrow> string \<Rightarrow> world \<Rightarrow> exn + task list" where
  "load_body now p w =
     propagate (read_json w p) (\<lambda>data.
       case data of PList items \<Rightarrow> from_dicts now items | _ \<Rightarrow> Inl ValueError)"

definition load :: "(nat \<Rightarrow> string) \<Rightarrow> todo_db \<Rightarrow> world \<Rightarrow> (exn + unit) \<times> todo_db \<times> world" where
  "load now db w =
     (if files w (path db) = None then (Inr (), db\<lparr>tasks := []\<rparr>, w)
      else case load_body now (path db) w of
             Inr ts \<Rightarrow> (Inr (), db\<lparr>tasks := ts\<rparr>, w)
           | Inl e \<Rightarrow>
               if is_ValueError e
               then (Inr (), db\<lparr>tasks := []\<rparr>, w\<lparr>stderr := stderr w @ [Warning_failed_to_load e]\<rparr>)
               else if is_Exception e
               then (Inr (), db\<lparr>tasks := []\<rparr>, w\<lparr>stderr := stderr w @ [Error_reading e]\<rparr>)
               else (Inl e, db, w))"

text \<open>\<open>TodoDB(path)\<close>.\<close>

definition init :: "(nat \<Rightarrow> string) \<Rightarrow> string \<Rightarrow> world \<Rightarrow> (exn + unit) \<times> todo_db \<times> world" where
  "init now p w = load now \<lparr>path = p, tasks = []\<rparr> w"

text \<open>\<open>except Exception as e: raise IOError(...)\<close>, in \<open>_save\<close>, \<open>export\<close> and
  \<open>import_file\<close>.\<close>

definition as_IOError :: "exn \<Rightarrow> exn" where
  "as_IOError e = (if is_Exception e then OSError else e)"

definition save :: "todo_db \<Rightarrow> world \<Rightarrow> (exn + unit) \<times> world" where
  "save db w =
     (let tmp = path db @ ''.tmp'' in
      case write_json w tmp (dump db) of
        Inl e \<Rightarrow> (Inl (as_IOError e), w)
      | Inr w1 \<Rightarrow>
          if replaceable w1 (path db)
          then (Inr (), w1\<lparr>files := (files w1)(tmp := None, path db := files w1 tmp)\<rparr>)
          else (Inl (as_IOError OSError), w1))"

definition next_id :: "todo_db \<Rightarrow> int" where
  "next_id db = (if tasks db = [] then 1 else Max (set (map task_id (tasks db))) + 1)"

definition find_by_id :: "todo_db \<Rightarrow> int \<Rightarrow> exn + task" where
  "find_by_id db i =
     (case find (\<lambda>t. task_id t = i) (tasks db) of
        None \<Rightarrow> Inl LookupError
      | Some t \<Rightarrow> Inr t)"

text \<open>
  \<open>_validate_date\<close>: \<open>except ValueError: raise ValueError(...)\<close>.
\<close>

definition validate_date :: "string \<Rightarrow> exn + unit" where
  "validate_date d =
     (case strptime d of
        Inl e \<Rightarrow> if is_ValueError e then Inl ValueError else Inl e
      | Inr _ \<Rightarrow> Inr ())"

text \<open>
  \<open>add\<close>. An absent argument (\<open>None\<close>) is \<open>None\<close> here. \<open>if due:\<close> is false for
  \<open>None\<close> and for the empty string; \<open>tags or []\<close> is \<open>[]\<close> for \<open>None\<close> and for
  the empty list. \<open>now\<close> is the clock when the record is constructed.
\<close>

definition opt_str :: "string option \<Rightarrow> pyval" where
  "opt_str a = (case a of None \<Rightarrow> PNone | Some s \<Rightarrow> PStr s)"

text \<open>\<open>self._save()\<close> followed by \<open>return x\<close>.\<close>

definition save_return :: "todo_db \<Rightarrow> world \<Rightarrow> 'a \<Rightarrow> (exn + 'a) \<times> todo_db \<times> world" where
  "save_return db w x =
     (case save db w of
        (Inl e, w1) \<Rightarrow> (Inl e, db, w1)
      | (Inr _, w1) \<Rightarrow> (Inr x, db, w1))"

definition add_check_due :: "string option \<Rightarrow> exn + unit" where
  "add_check_due due_arg =
     (case due_arg of
        None \<Rightarrow> Inr ()
      | Some d \<Rightarrow> if d \<noteq> [] then validate_date d else Inr ())"

definition add ::
  "string \<Rightarrow> todo_db \<Rightarrow> string \<Rightarrow> string \<Rightarrow> string option \<Rightarrow> string list option \<Rightarrow> world
   \<Rightarrow> (exn + task) \<times> todo_db \<times> world" where
  "add now db title_arg description_arg due_arg tags_arg w =
     (case add_check_due due_arg of
        Inl e \<Rightarrow> (Inl e, db, w)
      | Inr _ \<Rightarrow>
          (let tags1 = (case tags_arg of None \<Rightarrow> [] | Some ts \<Rightarrow> if ts = [] then [] else ts);
               task = \<lparr>task_id = next_id db, title = title_arg, description = description_arg,
                       created_at = now, due = opt_str due_arg, tags = map PStr tags1,
                       done_flag = False\<rparr>
           in save_return (db\<lparr>tasks := tasks db @ [task]\<rparr>) w task))"

definition list_tasks :: "todo_db \<Rightarrow> task list" where
  "list_tasks db = tasks db"

text \<open>
  \<open>edit\<close> and \<open>toggle_done\<close> assign to fields of the object that \<open>find_by_id\<close>
  returns, the first record of the list with the id. The list holds that object, so
  the store sees the object as the method leaves it, also when the method raises.
  No method places one object twice in the list.
\<close>

fun assign :: "int \<Rightarrow> task \<Rightarrow> task list \<Rightarrow> task list" where
  "assign i t' [] = []"
| "assign i t' (t # ts) = (if task_id t = i then t' # ts else t # assign i t' ts)"

text \<open>\<open>self.tasks.remove(task)\<close> removes the first element equal to \<open>task\<close>.\<close>

definition delete :: "todo_db \<Rightarrow> int \<Rightarrow> world \<Rightarrow> (exn + unit) \<times> todo_db \<times> world" where
  "delete db i w =
     (case find_by_id db i of
        Inl e \<Rightarrow> (Inl e, db, w)
      | Inr task \<Rightarrow> save_return (db\<lparr>tasks := remove1 task (tasks db)\<rparr>) w ())"

text \<open>
  The assignments of \<open>edit\<close> in the order written: the title and the description
  before the date is validated, the tags after it. The result is the exception raised,
  if any, and the object as the assignments leave it.
\<close>

definition edit_due :: "task \<Rightarrow> string option \<Rightarrow> exn + task" where
  "edit_due t due_arg =
     (case due_arg of
        None \<Rightarrow> Inr t
      | Some d \<Rightarrow>
          if d \<noteq> [] then propagate (validate_date d) (\<lambda>_. Inr (t\<lparr>due := PStr d\<rparr>))
          else Inr (t\<lparr>due := PNone\<rparr>))"

definition edit_fields ::
  "task \<Rightarrow> string option \<Rightarrow> string option \<Rightarrow> string option \<Rightarrow> string list option
   \<Rightarrow> exn option \<times> task" where
  "edit_fields task title_arg description_arg due_arg tags_arg =
     (let t1 = (case title_arg of None \<Rightarrow> task | Some x \<Rightarrow> task\<lparr>title := x\<rparr>);
          t2 = (case description_arg of None \<Rightarrow> t1 | Some x \<Rightarrow> t1\<lparr>description := x\<rparr>)
      in case edit_due t2 due_arg of
           Inl e \<Rightarrow> (Some e, t2)
         | Inr t3 \<Rightarrow> (None, (case tags_arg of None \<Rightarrow> t3 | Some ts \<Rightarrow> t3\<lparr>tags := map PStr ts\<rparr>)))"

definition edit ::
  "todo_db \<Rightarrow> int \<Rightarrow> string option \<Rightarrow> string option \<Rightarrow> string option \<Rightarrow> string list option
   \<Rightarrow> world \<Rightarrow> (exn + task) \<times> todo_db \<times> world" where
  "edit db i title_arg description_arg due_arg tags_arg w =
     (case find_by_id db i of
        Inl e \<Rightarrow> (Inl e, db, w)
      | Inr task \<Rightarrow>
          (case edit_fields task title_arg description_arg due_arg tags_arg of
             (Some e, task1) \<Rightarrow> (Inl e, db\<lparr>tasks := assign i task1 (tasks db)\<rparr>, w)
           | (None, task1) \<Rightarrow> save_return (db\<lparr>tasks := assign i task1 (tasks db)\<rparr>) w task1))"

definition toggle_done :: "todo_db \<Rightarrow> int \<Rightarrow> world \<Rightarrow> (exn + task) \<times> todo_db \<times> world" where
  "toggle_done db i w =
     (case find_by_id db i of
        Inl e \<Rightarrow> (Inl e, db, w)
      | Inr task \<Rightarrow>
          (let task1 = task\<lparr>done_flag := \<not> done_flag task\<rparr>
           in save_return (db\<lparr>tasks := assign i task1 (tasks db)\<rparr>) w task1))"

text \<open>
  \<open>search\<close>. \<open>q in s\<close> on strings is \<open>sublist q s\<close>. \<open>" ".join(t.tags)\<close> raises
  \<open>TypeError\<close> when an element is not a string, and \<open>or\<close> evaluates it only when
  neither the title nor the description matches.
\<close>

fun strs :: "pyval list \<Rightarrow> exn + string list" where
  "strs [] = Inr []"
| "strs (PStr s # vs) = propagate (strs vs) (\<lambda>ss. Inr (s # ss))"
| "strs (_ # vs) = Inl TypeError"

definition join_tags :: "pyval list \<Rightarrow> exn + string" where
  "join_tags vs = propagate (strs vs) (\<lambda>ss. Inr (join '' '' ss))"

definition matches :: "string \<Rightarrow> task \<Rightarrow> exn + bool" where
  "matches q t =
     (if sublist q (lower (title t)) then Inr True
      else if sublist q (lower (description t)) then Inr True
      else propagate (join_tags (tags t)) (\<lambda>s. Inr (sublist q (lower s))))"

fun select :: "string \<Rightarrow> task list \<Rightarrow> exn + task list" where
  "select q [] = Inr []"
| "select q (t # ts) =
     propagate (matches q t) (\<lambda>b.
     propagate (select q ts) (\<lambda>r. Inr (if b then t # r else r)))"

definition search :: "todo_db \<Rightarrow> string \<Rightarrow> exn + task list" where
  "search db query = select (lower query) (tasks db)"

definition export :: "todo_db \<Rightarrow> string \<Rightarrow> world \<Rightarrow> (exn + unit) \<times> world" where
  "export db export_path w =
     (case write_json w export_path (dump db) of
        Inl e \<Rightarrow> (Inl (as_IOError e), w)
      | Inr w1 \<Rightarrow> (Inr (), w1))"

text \<open>
  \<open>import_file\<close>. The loop of the merge runs over \<open>enumerate(new_tasks)\<close>, with
  \<open>base_id\<close> computed once before it.
\<close>

fun merge_loop :: "int \<Rightarrow> task list \<Rightarrow> (nat \<times> task) list \<Rightarrow> task list" where
  "merge_loop base_id ts [] = ts"
| "merge_loop base_id ts ((i, t) # its) = merge_loop base_id (ts @ [t\<lparr>task_id := base_id + int i\<rparr>]) its"

definition import_body :: "(nat \<Rightarrow> string) \<Rightarrow> string \<Rightarrow> world \<Rightarrow> exn + task list" where
  "import_body now p w =
     propagate (read_json w p) (\<lambda>data.
       case data of PList items \<Rightarrow> from_dicts now items | _ \<Rightarrow> Inl ValueError)"

definition import_file ::
  "(nat \<Rightarrow> string) \<Rightarrow> todo_db \<Rightarrow> string \<Rightarrow> bool \<Rightarrow> world \<Rightarrow> (exn + unit) \<times> todo_db \<times> world" where
  "import_file now db import_path merge w =
     (case import_body now import_path w of
        Inl e \<Rightarrow> (Inl (as_IOError e), db, w)
      | Inr new_tasks \<Rightarrow>
          (let db1 = (if merge
                      then db\<lparr>tasks := merge_loop (next_id db) (tasks db) (enumerate 0 new_tasks)\<rparr>
                      else db\<lparr>tasks := new_tasks\<rparr>)
           in case save db1 w of
                (Inl e, w1) \<Rightarrow> (Inl (as_IOError e), db1, w1)
              | (Inr _, w1) \<Rightarrow> (Inr (), db1, w1)))"

section \<open>Callers\<close>

text \<open>
  A caller that makes a sequence of \<open>add\<close> calls on one store and stops at the first
  exception. A call is the clock and the four arguments; the result is the list of the
  records that the calls returned.
\<close>

type_synonym add_call = "string \<times> string \<times> string \<times> string option \<times> string list option"

fun add_seq :: "todo_db \<Rightarrow> world \<Rightarrow> add_call list \<Rightarrow> (exn + task list) \<times> todo_db \<times> world" where
  "add_seq db w [] = (Inr [], db, w)"
| "add_seq db w ((now, title_arg, description_arg, due_arg, tags_arg) # calls) =
     (case add now db title_arg description_arg due_arg tags_arg w of
        (Inl e, db1, w1) \<Rightarrow> (Inl e, db1, w1)
      | (Inr t, db1, w1) \<Rightarrow>
          (case add_seq db1 w1 calls of
             (Inl e, db2, w2) \<Rightarrow> (Inl e, db2, w2)
           | (Inr ts, db2, w2) \<Rightarrow> (Inr (t # ts), db2, w2)))"

section \<open>The specification of \<open>search\<close>\<close>

text \<open>
  The specification's words for \<open>search\<close>, to compare \<open>search\<close> with. The capital
  letters below U+0100 are \<open>A\<close>-\<open>Z\<close> and U+00C0-U+00DE without U+00D7; the small
  letter of a capital is 32 code points above it. Two characters are the same letter
  when they are equal or one is a capital and the other its small letter; \<open>s\<close>
  contains \<open>q\<close> as a case-insensitive substring when, at some position of \<open>s\<close>, as
  many characters as \<open>q\<close> has are letter by letter the same as those of \<open>q\<close>. The tags
  of a record are text when each is a string, as the dataclass declares them.
\<close>

definition is_capital :: "char \<Rightarrow> bool" where
  "is_capital c =
     (in_range CHR ''A'' CHR ''Z'' c
      \<or> (in_range (CHR 0xC0) (CHR 0xDE) c \<and> c \<noteq> CHR 0xD7))"

definition small_of_capital :: "char \<Rightarrow> char \<Rightarrow> bool" where
  "small_of_capital u l = (is_capital u \<and> (of_char l :: nat) = of_char u + 32)"

definition same_letter :: "char \<Rightarrow> char \<Rightarrow> bool" where
  "same_letter x y = (x = y \<or> small_of_capital x y \<or> small_of_capital y x)"

definition spec_contains :: "string \<Rightarrow> string \<Rightarrow> bool" where
  "spec_contains q s =
     (\<exists>i\<in>set [0..<Suc (length s)]. list_all2 same_letter q (take (length q) (drop i s)))"

fun is_text :: "pyval \<Rightarrow> bool" where
  "is_text (PStr s) = True"
| "is_text _ = False"

fun text_of :: "pyval \<Rightarrow> string" where
  "text_of (PStr s) = s"
| "text_of _ = []"

definition text_tags :: "task \<Rightarrow> bool" where
  "text_tags t = list_all is_text (tags t)"

definition spec_matches :: "string \<Rightarrow> task \<Rightarrow> bool" where
  "spec_matches q t =
     (spec_contains q (title t) \<or> spec_contains q (description t)
      \<or> spec_contains q (join '' '' (map text_of (tags t))))"

definition spec_search :: "task list \<Rightarrow> string \<Rightarrow> task list" where
  "spec_search ts q = filter (spec_matches q) ts"

section \<open>The specification of the date validator\<close>

text \<open>
  The specification's words for a date, to compare \<open>_validate_date\<close> with: four digits,
  a hyphen, two digits, a hyphen, two digits, with a month from 1 to 12 and a day that
  the month has in that year.
\<close>

definition number :: "string \<Rightarrow> int" where
  "number ds = foldl (\<lambda>a c. a * 10 + digit_val c) 0 ds"

definition spec_date :: "string \<Rightarrow> bool" where
  "spec_date s =
     (length s = 10
      \<and> list_all is_digit (take 4 s) \<and> s ! 4 = CHR ''-''
      \<and> list_all is_digit (take 2 (drop 5 s)) \<and> s ! 7 = CHR ''-''
      \<and> list_all is_digit (drop 8 s)
      \<and> 1 \<le> number (take 2 (drop 5 s)) \<and> number (take 2 (drop 5 s)) \<le> 12
      \<and> 1 \<le> number (drop 8 s)
      \<and> number (drop 8 s) \<le> days_in_month (number (take 4 s)) (number (take 2 (drop 5 s))))"

section \<open>What the methods raise\<close>

lemma save_not_ValueError: "fst (save db w) \<noteq> Inl ValueError"
  by (simp add: save_def write_json_def as_IOError_def Let_def split: sum.splits)

lemma save_return_fst: "fst (save_return db w x) = (case fst (save db w) of Inl e \<Rightarrow> Inl e | Inr _ \<Rightarrow> Inr x)"
  by (simp add: save_return_def split: prod.splits sum.splits)

lemma save_return_not_ValueError: "fst (save_return db w x) \<noteq> Inl ValueError"
  using save_not_ValueError [of db w] by (cases "fst (save db w)") (auto simp: save_return_fst)


lemma validate_date_empty: "validate_date [] = Inl ValueError"
  by (simp add: validate_date_def strptime_def re_date_def re_Y_def)

lemma add_empty_due_eq:
  "add now db ttl descr (Some []) tgs w =
       save_return
         (db\<lparr>tasks := tasks db @
            [\<lparr>task_id = next_id db, title = ttl, description = descr, created_at = now,
              due = PStr [], tags = map PStr (case tgs of None \<Rightarrow> [] | Some ts \<Rightarrow> ts),
              done_flag = False\<rparr>]\<rparr>) w
         \<lparr>task_id = next_id db, title = ttl, description = descr, created_at = now,
              due = PStr [], tags = map PStr (case tgs of None \<Rightarrow> [] | Some ts \<Rightarrow> ts),
              done_flag = False\<rparr>"
  by (simp add: add_def add_check_due_def opt_str_def Let_def split: option.splits)

text \<open>
  Claim C10. \<open>add\<close> with the empty string as \<open>due\<close> does not validate it, although
  the validator rejects the empty string: the call never raises \<open>ValueError\<close>, and the
  record appended (and returned when the save succeeds) has the empty string itself as
  its \<open>due\<close>, not \<open>None\<close>.
\<close>

theorem add_empty_due:
  "validate_date [] = Inl ValueError
   \<and> add now db ttl descr (Some []) tgs w =
       save_return
         (db\<lparr>tasks := tasks db @
            [\<lparr>task_id = next_id db, title = ttl, description = descr, created_at = now,
              due = PStr [], tags = map PStr (case tgs of None \<Rightarrow> [] | Some ts \<Rightarrow> ts),
              done_flag = False\<rparr>]\<rparr>) w
         \<lparr>task_id = next_id db, title = ttl, description = descr, created_at = now,
              due = PStr [], tags = map PStr (case tgs of None \<Rightarrow> [] | Some ts \<Rightarrow> ts),
              done_flag = False\<rparr>
   \<and> fst (add now db ttl descr (Some []) tgs w) \<noteq> Inl ValueError"
  using validate_date_empty add_empty_due_eq [of now db ttl descr tgs w]
    save_return_not_ValueError
  by simp

lemma propagate_Inl:
  "propagate m f = Inl e \<longleftrightarrow> m = Inl e \<or> (\<exists>x. m = Inr x \<and> f x = Inl e)"
  by (cases m) (simp_all add: propagate_def)

lemma propagate_Inr:
  "propagate m f = Inr y \<longleftrightarrow> (\<exists>x. m = Inr x \<and> f x = Inr y)"
  by (cases m) (simp_all add: propagate_def)

lemma py_int_exn: "py_int v = Inl e \<Longrightarrow> is_Exception e"
  by (cases v) (auto split: option.splits)

lemma py_list_exn: "py_list v = Inl e \<Longrightarrow> is_Exception e"
  by (cases v) auto

lemma subscript_exn: "subscript d k = Inl e \<Longrightarrow> is_Exception e"
  by (cases d) (auto split: option.splits)

lemma get_exn: "get d k dflt = Inl e \<Longrightarrow> is_Exception e"
  by (cases d) (auto split: option.splits)

lemma from_dict_body_exn: "from_dict_body now d = Inl e \<Longrightarrow> is_Exception e"
  unfolding from_dict_body_def propagate_Inl
  by (auto dest: py_int_exn py_list_exn subscript_exn get_exn)

lemma from_dict_exn: "from_dict now d = Inl e \<Longrightarrow> e = ValueError"
  by (auto simp: from_dict_def split: sum.splits if_splits dest: from_dict_body_exn)

lemma from_dicts_exn: "from_dicts now ds = Inl e \<Longrightarrow> e = ValueError"
  by (induction ds arbitrary: now) (auto simp: propagate_Inl dest: from_dict_exn)

lemma load_body_exn: "load_body now p w = Inl e \<Longrightarrow> is_Exception e"
  by (auto simp: load_body_def propagate_Inl read_json_def split: option.splits file_content.splits pyval.splits dest: from_dicts_exn)

lemma get_PDict: "get (PDict kvs) k dflt = Inr (case map_of kvs k of None \<Rightarrow> dflt | Some v \<Rightarrow> v)"
  by (simp split: option.splits)

lemma propagate_Inr_left: "propagate (Inr x) f = f x"
  by (simp add: propagate_def)

lemma from_dict_body_now:
  "from_dict_body now d = Inl e \<Longrightarrow> from_dict_body now' d = Inl e"
proof (cases d)
  case (PDict kvs)
  assume "from_dict_body now d = Inl e"
  then show ?thesis
    unfolding from_dict_body_def PDict get_PDict propagate_Inr_left
    by (simp add: propagate_Inl del: get.simps)
qed (simp_all add: from_dict_body_def propagate_def)

lemma from_dict_now: "from_dict now d = Inl e \<Longrightarrow> from_dict now' d = Inl e"
proof -
  assume a: "from_dict now d = Inl e"
  then obtain e' where e': "from_dict_body now d = Inl e'"
    by (cases "from_dict_body now d") (auto simp: from_dict_def)
  then have "from_dict_body now' d = Inl e'"
    by (rule from_dict_body_now)
  with a e' show ?thesis
    by (simp add: from_dict_def)
qed

lemma from_dicts_Inl:
  "(\<exists>e. from_dicts now ds = Inl e) \<longleftrightarrow> (\<exists>d\<in>set ds. \<exists>e. from_dict (now 0) d = Inl e)"
proof (induction ds arbitrary: now)
  case Nil
  then show ?case by simp
next
  case (Cons d ds)
  have shift: "(\<exists>d\<in>set ds. \<exists>e. from_dict (now (Suc 0)) d = Inl e) \<longleftrightarrow> (\<exists>d\<in>set ds. \<exists>e. from_dict (now 0) d = Inl e)"
    by (meson from_dict_now)
  show ?case
  proof (cases "from_dict (now 0) d")
    case (Inl e)
    then show ?thesis by (auto simp: propagate_def)
  next
    case (Inr t)
    have "(\<exists>e. from_dicts now (d # ds) = Inl e) \<longleftrightarrow> (\<exists>e. from_dicts (\<lambda>k. now (Suc k)) ds = Inl e)"
      using Inr by (cases "from_dicts (\<lambda>k. now (Suc k)) ds") (auto simp: propagate_def)
    also have "\<dots> \<longleftrightarrow> (\<exists>d\<in>set ds. \<exists>e. from_dict (now (Suc 0)) d = Inl e)"
      using Cons.IH [of "\<lambda>k. now (Suc k)"] by simp
    finally show ?thesis using Inr shift by auto
  qed
qed

text \<open>
  Claim C8. \<open>_load\<close> never raises. For a path that holds nothing it leaves an empty
  collection and prints nothing. For a file that is not JSON, for a JSON document whose
  root is not a list, and for a list with an item that \<open>from_dict\<close> rejects, it
  leaves an empty collection and prints one warning.
\<close>

theorem load_never_raises:
  "fst (load now db w) = Inr ()
   \<and> (files w (path db) = None \<longrightarrow> load now db w = (Inr (), db\<lparr>tasks := []\<rparr>, w))
   \<and> (files w (path db) = Some Not_json \<longrightarrow>
        load now db w =
          (Inr (), db\<lparr>tasks := []\<rparr>,
           w\<lparr>stderr := stderr w @ [Warning_failed_to_load JSONDecodeError]\<rparr>))
   \<and> (files w (path db) = Some (Json v) \<and> (case v of PList _ \<Rightarrow> False | _ \<Rightarrow> True) \<longrightarrow>
        load now db w =
          (Inr (), db\<lparr>tasks := []\<rparr>,
           w\<lparr>stderr := stderr w @ [Warning_failed_to_load ValueError]\<rparr>))
   \<and> (files w (path db) = Some (Json (PList items))
        \<and> (\<exists>d\<in>set items. \<exists>e. from_dict (now 0) d = Inl e) \<longrightarrow>
        load now db w =
          (Inr (), db\<lparr>tasks := []\<rparr>,
           w\<lparr>stderr := stderr w @ [Warning_failed_to_load ValueError]\<rparr>))"
proof (intro conjI impI)
  show "fst (load now db w) = Inr ()"
    by (auto simp: load_def split: sum.splits dest: load_body_exn)
next
  assume "files w (path db) = None"
  then show "load now db w = (Inr (), db\<lparr>tasks := []\<rparr>, w)"
    by (simp add: load_def)
next
  assume "files w (path db) = Some Not_json"
  then show "load now db w =
          (Inr (), db\<lparr>tasks := []\<rparr>,
           w\<lparr>stderr := stderr w @ [Warning_failed_to_load JSONDecodeError]\<rparr>)"
    by (simp add: load_def load_body_def read_json_def propagate_def)
next
  assume "files w (path db) = Some (Json v) \<and> (case v of PList _ \<Rightarrow> False | _ \<Rightarrow> True)"
  then show "load now db w =
          (Inr (), db\<lparr>tasks := []\<rparr>,
           w\<lparr>stderr := stderr w @ [Warning_failed_to_load ValueError]\<rparr>)"
    by (cases v) (simp_all add: load_def load_body_def read_json_def propagate_def)
next
  assume a: "files w (path db) = Some (Json (PList items))
        \<and> (\<exists>d\<in>set items. \<exists>e. from_dict (now 0) d = Inl e)"
  then have "\<exists>e. from_dicts now items = Inl e"
    by (simp add: from_dicts_Inl)
  then have "from_dicts now items = Inl ValueError"
    using from_dicts_exn by blast
  with a show "load now db w =
          (Inr (), db\<lparr>tasks := []\<rparr>,
           w\<lparr>stderr := stderr w @ [Warning_failed_to_load ValueError]\<rparr>)"
    by (simp add: load_def load_body_def read_json_def propagate_def)
qed


theorem load_never_raises_witness:
  "load (\<lambda>_. ''t'') \<lparr>path = ''db'', tasks = []\<rparr>
     \<lparr>files = Map.empty, writable = (\<lambda>_. True), replaceable = (\<lambda>_. True), stderr = []\<rparr>
   = (Inr (), \<lparr>path = ''db'', tasks = []\<rparr>,
      \<lparr>files = Map.empty, writable = (\<lambda>_. True), replaceable = (\<lambda>_. True), stderr = []\<rparr>)
   \<and> load (\<lambda>_. ''t'') \<lparr>path = ''db'', tasks = []\<rparr>
     \<lparr>files = [''db'' \<mapsto> Not_json], writable = (\<lambda>_. True), replaceable = (\<lambda>_. True),
      stderr = []\<rparr>
   = (Inr (), \<lparr>path = ''db'', tasks = []\<rparr>,
      \<lparr>files = [''db'' \<mapsto> Not_json], writable = (\<lambda>_. True), replaceable = (\<lambda>_. True),
       stderr = [Warning_failed_to_load JSONDecodeError]\<rparr>)
   \<and> load (\<lambda>_. ''t'') \<lparr>path = ''db'', tasks = []\<rparr>
     \<lparr>files = [''db'' \<mapsto> Json (PDict [(''not'', PStr ''a list'')])], writable = (\<lambda>_. True),
      replaceable = (\<lambda>_. True), stderr = []\<rparr>
   = (Inr (), \<lparr>path = ''db'', tasks = []\<rparr>,
      \<lparr>files = [''db'' \<mapsto> Json (PDict [(''not'', PStr ''a list'')])], writable = (\<lambda>_. True),
       replaceable = (\<lambda>_. True), stderr = [Warning_failed_to_load ValueError]\<rparr>)
   \<and> load (\<lambda>_. ''t'') \<lparr>path = ''db'', tasks = []\<rparr>
     \<lparr>files = [''db'' \<mapsto> Json (PList [PDict [(''title'', PStr ''x'')]])], writable = (\<lambda>_. True),
      replaceable = (\<lambda>_. True), stderr = []\<rparr>
   = (Inr (), \<lparr>path = ''db'', tasks = []\<rparr>,
      \<lparr>files = [''db'' \<mapsto> Json (PList [PDict [(''title'', PStr ''x'')]])], writable = (\<lambda>_. True),
       replaceable = (\<lambda>_. True), stderr = [Warning_failed_to_load ValueError]\<rparr>)"
proof -
  have bad: "from_dict ''t'' (PDict [(''title'', PStr ''x'')]) = Inl ValueError"
    by (simp add: from_dict_def from_dict_body_def propagate_def)
  show ?thesis
    using bad
      load_never_raises [of "\<lambda>_. ''t''" "\<lparr>path = ''db'', tasks = []\<rparr>"
        "\<lparr>files = Map.empty, writable = (\<lambda>_. True), replaceable = (\<lambda>_. True), stderr = []\<rparr>"]
      load_never_raises [of "\<lambda>_. ''t''" "\<lparr>path = ''db'', tasks = []\<rparr>"
        "\<lparr>files = [''db'' \<mapsto> Not_json], writable = (\<lambda>_. True), replaceable = (\<lambda>_. True),
          stderr = []\<rparr>"]
      load_never_raises [of "\<lambda>_. ''t''" "\<lparr>path = ''db'', tasks = []\<rparr>"
        "\<lparr>files = [''db'' \<mapsto> Json (PDict [(''not'', PStr ''a list'')])], writable = (\<lambda>_. True),
          replaceable = (\<lambda>_. True), stderr = []\<rparr>" "PDict [(''not'', PStr ''a list'')]"]
      load_never_raises [of "\<lambda>_. ''t''" "\<lparr>path = ''db'', tasks = []\<rparr>"
        "\<lparr>files = [''db'' \<mapsto> Json (PList [PDict [(''title'', PStr ''x'')]])], writable = (\<lambda>_. True),
          replaceable = (\<lambda>_. True), stderr = []\<rparr>" _ "[PDict [(''title'', PStr ''x'')]]"]
    by simp
qed

section \<open>Identifiers\<close>

lemma next_id_greater: "t \<in> set (tasks db) \<Longrightarrow> task_id t < next_id db"
proof -
  assume t: "t \<in> set (tasks db)"
  then have "task_id t \<le> Max (set (map task_id (tasks db)))"
    by (intro Max_ge) auto
  moreover have "tasks db \<noteq> []" using t by auto
  ultimately show ?thesis by (simp add: next_id_def)
qed

lemma next_id_attained:
  "tasks db \<noteq> [] \<Longrightarrow> \<exists>t\<in>set (tasks db). next_id db = task_id t + 1"
proof -
  assume ne: "tasks db \<noteq> []"
  then have "Max (set (map task_id (tasks db))) \<in> set (map task_id (tasks db))"
    by (intro Max_in) auto
  then obtain t where "t \<in> set (tasks db)" "Max (set (map task_id (tasks db))) = task_id t"
    by auto
  then show ?thesis using ne by (auto simp: next_id_def)
qed

lemma save_return_Inr:
  "save_return db w x = (Inr y, db1, w1) \<Longrightarrow> y = x \<and> db1 = db"
  by (auto simp: save_return_def split: prod.splits sum.splits)

lemma add_Inr:
  "add now db ttl descr d tgs w = (Inr t, db1, w1)
   \<Longrightarrow> tasks db1 = tasks db @ [t] \<and> task_id t = next_id db"
  by (auto simp: add_def Let_def split: sum.splits dest!: save_return_Inr)

lemma add_seq_Inr:
  "add_seq db w calls = (Inr ts, db', w')
   \<Longrightarrow> tasks db' = tasks db @ ts
       \<and> (\<forall>k<length ts. \<forall>u\<in>set (tasks db @ take k ts). task_id u < task_id (ts ! k))"
proof (induction calls arbitrary: db w ts)
  case Nil
  then show ?case by simp
next
  case (Cons c calls)
  obtain now ttl descr d tgs where c: "c = (now, ttl, descr, d, tgs)"
    by (cases c) auto
  from Cons.prems c obtain t db1 w1 rest where
    step: "add now db ttl descr d tgs w = (Inr t, db1, w1)" and
    rest: "add_seq db1 w1 calls = (Inr rest, db', w')" and
    ts: "ts = t # rest"
    by (auto split: prod.splits sum.splits)
  from add_Inr [OF step] have db1: "tasks db1 = tasks db @ [t]" and tid: "task_id t = next_id db"
    by auto
  from Cons.IH [OF rest] have
    ih1: "tasks db' = tasks db1 @ rest" and
    ih2: "\<forall>k<length rest. \<forall>u\<in>set (tasks db1 @ take k rest). task_id u < task_id (rest ! k)"
    by auto
  have "tasks db' = tasks db @ ts"
    using ih1 db1 ts by simp
  moreover have "\<forall>k<length ts. \<forall>u\<in>set (tasks db @ take k ts). task_id u < task_id (ts ! k)"
  proof (intro allI impI ballI)
    fix k u
    assume k: "k < length ts" and u: "u \<in> set (tasks db @ take k ts)"
    show "task_id u < task_id (ts ! k)"
    proof (cases k)
      case 0
      then show ?thesis using u ts tid next_id_greater [of u db] by simp
    next
      case (Suc j)
      then have "j < length rest" using k ts by simp
      moreover have "u \<in> set (tasks db1 @ take j rest)"
        using u Suc ts db1 by auto
      ultimately show ?thesis using ih2 Suc ts by simp
    qed
  qed
  ultimately show ?case by simp
qed

lemma increasing_distinct:
  "distinct (map task_id xs)
   \<Longrightarrow> \<forall>k<length ts. \<forall>u\<in>set (xs @ take k ts). task_id u < task_id (ts ! k)
   \<Longrightarrow> distinct (map task_id (xs @ ts))"
proof (induction ts rule: rev_induct)
  case Nil
  then show ?case by simp
next
  case (snoc t ts)
  have prev: "\<forall>k<length ts. \<forall>u\<in>set (xs @ take k ts). task_id u < task_id (ts ! k)"
  proof (intro allI impI ballI)
    fix k u assume k: "k < length ts" and u: "u \<in> set (xs @ take k ts)"
    then have "task_id u < task_id ((ts @ [t]) ! k)"
      using snoc.prems(2) by auto
    then show "task_id u < task_id (ts ! k)" using k by (simp add: nth_append)
  qed
  have d: "distinct (map task_id (xs @ ts))"
    using snoc.IH [OF snoc.prems(1) prev] .
  have "\<forall>u\<in>set (xs @ ts). task_id u < task_id t"
    using snoc.prems(2) [rule_format, of "length ts"] by simp
  then have "task_id t \<notin> task_id ` set (xs @ ts)" by force
  with d show ?case by (simp add: image_Un)
qed

text \<open>
  Claim C6. \<open>_next_id\<close> is 1 on an empty collection, is greater than every id of the
  collection, and on a collection that is not empty is one more than an id that occurs:
  one more than the maximum. When a sequence of \<open>add\<close> calls succeeds, the records
  returned are appended in order, the id of each is greater than every id in the store
  at the time of its call, and ids that were unique before are unique after.
\<close>

theorem add_ids_increase:
  "next_id (db\<lparr>tasks := []\<rparr>) = 1
   \<and> (\<forall>t\<in>set (tasks db). task_id t < next_id db)
   \<and> (tasks db \<noteq> [] \<longrightarrow> (\<exists>t\<in>set (tasks db). next_id db = task_id t + 1))
   \<and> (add_seq db w calls = (Inr ts, db', w') \<longrightarrow>
        tasks db' = tasks db @ ts
        \<and> (\<forall>k<length ts. \<forall>u\<in>set (tasks db @ take k ts). task_id u < task_id (ts ! k))
        \<and> (distinct (map task_id (tasks db)) \<longrightarrow> distinct (map task_id (tasks db'))))"
  using next_id_greater [of _ db] next_id_attained [of db] add_seq_Inr [of db w calls ts db' w']
    increasing_distinct [of "tasks db" ts]
  by (simp add: next_id_def)

theorem add_ids_increase_witness:
  "tasks \<lparr>path = ''db'', tasks = [\<lparr>task_id = 5, title = ''Old'', description = [],
      created_at = ''t0'', due = PNone, tags = [], done_flag = True\<rparr>]\<rparr> \<noteq> []
   \<and> next_id \<lparr>path = ''db'', tasks = [\<lparr>task_id = 5, title = ''Old'', description = [],
      created_at = ''t0'', due = PNone, tags = [], done_flag = True\<rparr>]\<rparr> = 5 + 1
   \<and> distinct (map task_id (tasks \<lparr>path = ''db'', tasks = [\<lparr>task_id = 5, title = ''Old'',
      description = [], created_at = ''t0'', due = PNone, tags = [], done_flag = True\<rparr>]\<rparr>))
   \<and> fst (add_seq \<lparr>path = ''db'', tasks = [\<lparr>task_id = 5, title = ''Old'', description = [],
      created_at = ''t0'', due = PNone, tags = [], done_flag = True\<rparr>]\<rparr>
     \<lparr>files = Map.empty, writable = (\<lambda>_. True), replaceable = (\<lambda>_. True), stderr = []\<rparr>
     [(''t1'', ''Buy milk'', [], Some ''2025-12-05'', Some [''shopping'']),
      (''t2'', ''Pay rent'', [], None, None)])
   = Inr [\<lparr>task_id = 6, title = ''Buy milk'', description = [], created_at = ''t1'',
            due = PStr ''2025-12-05'', tags = [PStr ''shopping''], done_flag = False\<rparr>,
          \<lparr>task_id = 7, title = ''Pay rent'', description = [], created_at = ''t2'',
            due = PNone, tags = [], done_flag = False\<rparr>]
   \<and> map task_id (tasks (fst (snd (add_seq \<lparr>path = ''db'', tasks = [\<lparr>task_id = 5,
      title = ''Old'', description = [], created_at = ''t0'', due = PNone, tags = [],
      done_flag = True\<rparr>]\<rparr>
     \<lparr>files = Map.empty, writable = (\<lambda>_. True), replaceable = (\<lambda>_. True), stderr = []\<rparr>
     [(''t1'', ''Buy milk'', [], Some ''2025-12-05'', Some [''shopping'']),
      (''t2'', ''Pay rent'', [], None, None)])))) = [5, 6, 7]
   \<and> distinct (map task_id (tasks (fst (snd (add_seq \<lparr>path = ''db'', tasks = [\<lparr>task_id = 5,
      title = ''Old'', description = [], created_at = ''t0'', due = PNone, tags = [],
      done_flag = True\<rparr>]\<rparr>
     \<lparr>files = Map.empty, writable = (\<lambda>_. True), replaceable = (\<lambda>_. True), stderr = []\<rparr>
     [(''t1'', ''Buy milk'', [], Some ''2025-12-05'', Some [''shopping'']),
      (''t2'', ''Pay rent'', [], None, None)])))))"
proof -
  let ?db = "\<lparr>path = ''db'', tasks = [\<lparr>task_id = 5, title = ''Old'', description = [],
      created_at = ''t0'', due = PNone, tags = [], done_flag = True\<rparr>]\<rparr>"
  let ?w = "\<lparr>files = Map.empty, writable = (\<lambda>_. True), replaceable = (\<lambda>_. True), stderr = []\<rparr>"
  let ?calls = "[(''t1'', ''Buy milk'', [], Some ''2025-12-05'', Some [''shopping'']),
      (''t2'', ''Pay rent'', [], None, None)]"
  let ?ts = "[\<lparr>task_id = 6, title = ''Buy milk'', description = [], created_at = ''t1'',
            due = PStr ''2025-12-05'', tags = [PStr ''shopping''], done_flag = False\<rparr>,
          \<lparr>task_id = 7, title = ''Pay rent'', description = [], created_at = ''t2'',
            due = PNone, tags = [], done_flag = False\<rparr>]"
  have d: "validate_date ''2025-12-05'' = Inr ()"
    by code_simp
  have run: "fst (add_seq ?db ?w ?calls) = Inr ?ts"
    by (simp add: add_def add_check_due_def d next_id_def opt_str_def save_return_def save_def
        write_json_def Let_def)
  then have "add_seq ?db ?w ?calls
    = (Inr ?ts, fst (snd (add_seq ?db ?w ?calls)), snd (snd (add_seq ?db ?w ?calls)))"
    by (metis prod.collapse)
  from add_ids_increase [of ?db ?w ?calls ?ts "fst (snd (add_seq ?db ?w ?calls))"
      "snd (snd (add_seq ?db ?w ?calls))"] this run
  show ?thesis by simp
qed

section \<open>Import and export\<close>

lemma merge_loop_enumerate:
  "merge_loop b acc (enumerate n ts) = acc @ map (\<lambda>(k, t). t\<lparr>task_id := b + int k\<rparr>) (enumerate n ts)"
  by (induction ts arbitrary: acc n) simp_all

lemma renumbered_ids:
  "map task_id (map (\<lambda>(k, t). t\<lparr>task_id := b + int k\<rparr>) (enumerate n ts))
   = map (\<lambda>k. b + int k) [n..<n + length ts]"
  by (induction ts arbitrary: n) (simp_all add: upt_rec)

lemma import_merge_tasks:
  "import_body now p w = Inr new_tasks
   \<Longrightarrow> tasks (fst (snd (import_file now db p True w)))
       = tasks db @ map (\<lambda>(k, t). t\<lparr>task_id := next_id db + int k\<rparr>) (enumerate 0 new_tasks)"
  by (simp add: import_file_def Let_def merge_loop_enumerate split: prod.splits sum.splits)

lemma fresh_ids_distinct:
  "distinct (map task_id xs) \<Longrightarrow> \<forall>u\<in>set xs. task_id u < b
   \<Longrightarrow> distinct (map task_id (xs @ map (\<lambda>(k, t). t\<lparr>task_id := b + int k\<rparr>) (enumerate 0 ts)))"
proof -
  assume d: "distinct (map task_id xs)" and less: "\<forall>u\<in>set xs. task_id u < b"
  let ?new = "map (\<lambda>k. b + int k) [0..<length ts]"
  have "distinct ?new"
    by (simp add: distinct_map inj_on_def)
  moreover have "set (map task_id xs) \<inter> set ?new = {}"
    using less by fastforce
  ultimately show ?thesis
    using d renumbered_ids [of b 0 ts] by simp
qed

text \<open>
  Claim C4, as amended. When the import file holds a JSON list that \<open>from_dict\<close>
  accepts item by item, \<open>import_file\<close> with \<open>merge=True\<close> leaves the existing
  records in place and appends the imported ones in order, the \<open>k\<close>-th (from 0) with
  the id \<open>_next_id() + k\<close> whatever id the file gave it. These ids differ from one
  another and each is greater than every id that was in the store, so no imported
  record shares its id with any other record, and a store whose ids were unique has
  unique ids afterwards. This holds whether or not the save that follows succeeds.
\<close>

theorem import_merge_fresh_ids:
  "files w p = Some (Json (PList items)) \<and> from_dicts now items = Inr new_tasks \<longrightarrow>
     tasks (fst (snd (import_file now db p True w)))
       = tasks db @ map (\<lambda>(k, t). t\<lparr>task_id := next_id db + int k\<rparr>) (enumerate 0 new_tasks)
     \<and> map task_id (drop (length (tasks db)) (tasks (fst (snd (import_file now db p True w)))))
         = map (\<lambda>k. next_id db + int k) [0..<length new_tasks]
     \<and> distinct (map task_id
           (drop (length (tasks db)) (tasks (fst (snd (import_file now db p True w))))))
     \<and> (\<forall>k<length new_tasks. \<forall>u\<in>set (tasks db). task_id u < next_id db + int k)
     \<and> (distinct (map task_id (tasks db))
          \<longrightarrow> distinct (map task_id (tasks (fst (snd (import_file now db p True w))))))"
proof (intro impI)
  assume a: "files w p = Some (Json (PList items)) \<and> from_dicts now items = Inr new_tasks"
  then have body: "import_body now p w = Inr new_tasks"
    by (simp add: import_body_def read_json_def propagate_def)
  let ?new = "map (\<lambda>(k, t). t\<lparr>task_id := next_id db + int k\<rparr>) (enumerate 0 new_tasks)"
  have tasks': "tasks (fst (snd (import_file now db p True w))) = tasks db @ ?new"
    using body by (rule import_merge_tasks)
  have ids: "map task_id ?new = map (\<lambda>k. next_id db + int k) [0..<length new_tasks]"
    using renumbered_ids [of "next_id db" 0 new_tasks] by simp
  have new_distinct: "distinct (map task_id ?new)"
    unfolding ids by (simp add: distinct_map inj_on_def)
  have above: "\<forall>k<length new_tasks. \<forall>u\<in>set (tasks db). task_id u < next_id db + int k"
  proof (intro allI impI ballI)
    fix k u
    assume "k < length new_tasks" and "u \<in> set (tasks db)"
    then show "task_id u < next_id db + int k"
      using next_id_greater [of u db] by simp
  qed
  have kept: "distinct (map task_id (tasks (fst (snd (import_file now db p True w)))))"
    if "distinct (map task_id (tasks db))"
  proof -
    from that have "distinct (map task_id (tasks db @ ?new))"
      using next_id_greater [of _ db] by (intro fresh_ids_distinct) auto
    then show ?thesis using tasks' by simp
  qed
  from tasks' ids new_distinct above kept
  show "tasks (fst (snd (import_file now db p True w))) = tasks db @ ?new
     \<and> map task_id (drop (length (tasks db)) (tasks (fst (snd (import_file now db p True w)))))
         = map (\<lambda>k. next_id db + int k) [0..<length new_tasks]
     \<and> distinct (map task_id
           (drop (length (tasks db)) (tasks (fst (snd (import_file now db p True w))))))
     \<and> (\<forall>k<length new_tasks. \<forall>u\<in>set (tasks db). task_id u < next_id db + int k)
     \<and> (distinct (map task_id (tasks db))
          \<longrightarrow> distinct (map task_id (tasks (fst (snd (import_file now db p True w))))))"
    by simp
qed

text \<open>
  Claim C4 as it was stated, with unique ids in the result for every store, fails on a
  store that holds an id twice: \<open>_load\<close> takes the ids of the file as they are, and
  the merge leaves the existing records alone. A store loaded from a file with two
  records of id 3 has, after the merge of one record, the ids 3, 3 and 4.
\<close>

theorem import_merge_keeps_duplicates:
  "fst (snd (init (\<lambda>_. ''t0'') ''db''
     \<lparr>files = [''db'' \<mapsto> Json (PList
        [PDict [(''id'', PInt 3), (''title'', PStr ''A'')],
         PDict [(''id'', PInt 3), (''title'', PStr ''B'')]]),
       ''in.json'' \<mapsto> Json (PList [PDict [(''id'', PInt 1), (''title'', PStr ''C'')]])],
      writable = (\<lambda>_. True), replaceable = (\<lambda>_. True), stderr = []\<rparr>))
   = \<lparr>path = ''db'', tasks =
       [\<lparr>task_id = 3, title = ''A'', description = [], created_at = ''t0'', due = PNone,
         tags = [], done_flag = False\<rparr>,
        \<lparr>task_id = 3, title = ''B'', description = [], created_at = ''t0'', due = PNone,
         tags = [], done_flag = False\<rparr>]\<rparr>
   \<and> map task_id (tasks (fst (snd (import_file (\<lambda>_. ''t9'')
       \<lparr>path = ''db'', tasks =
         [\<lparr>task_id = 3, title = ''A'', description = [], created_at = ''t0'', due = PNone,
           tags = [], done_flag = False\<rparr>,
          \<lparr>task_id = 3, title = ''B'', description = [], created_at = ''t0'', due = PNone,
           tags = [], done_flag = False\<rparr>]\<rparr>
       ''in.json'' True
       \<lparr>files = [''db'' \<mapsto> Json (PList
          [PDict [(''id'', PInt 3), (''title'', PStr ''A'')],
           PDict [(''id'', PInt 3), (''title'', PStr ''B'')]]),
         ''in.json'' \<mapsto> Json (PList [PDict [(''id'', PInt 1), (''title'', PStr ''C'')]])],
        writable = (\<lambda>_. True), replaceable = (\<lambda>_. True), stderr = []\<rparr>))))
     = [3, 3, 4]
   \<and> \<not> distinct (map task_id (tasks (fst (snd (import_file (\<lambda>_. ''t9'')
       \<lparr>path = ''db'', tasks =
         [\<lparr>task_id = 3, title = ''A'', description = [], created_at = ''t0'', due = PNone,
           tags = [], done_flag = False\<rparr>,
          \<lparr>task_id = 3, title = ''B'', description = [], created_at = ''t0'', due = PNone,
           tags = [], done_flag = False\<rparr>]\<rparr>
       ''in.json'' True
       \<lparr>files = [''db'' \<mapsto> Json (PList
          [PDict [(''id'', PInt 3), (''title'', PStr ''A'')],
           PDict [(''id'', PInt 3), (''title'', PStr ''B'')]]),
         ''in.json'' \<mapsto> Json (PList [PDict [(''id'', PInt 1), (''title'', PStr ''C'')]])],
        writable = (\<lambda>_. True), replaceable = (\<lambda>_. True), stderr = []\<rparr>)))))"
proof -
  have ids: "map task_id (tasks (fst (snd (import_file (\<lambda>_. ''t9'')
       \<lparr>path = ''db'', tasks =
         [\<lparr>task_id = 3, title = ''A'', description = [], created_at = ''t0'', due = PNone,
           tags = [], done_flag = False\<rparr>,
          \<lparr>task_id = 3, title = ''B'', description = [], created_at = ''t0'', due = PNone,
           tags = [], done_flag = False\<rparr>]\<rparr>
       ''in.json'' True
       \<lparr>files = [''db'' \<mapsto> Json (PList
          [PDict [(''id'', PInt 3), (''title'', PStr ''A'')],
           PDict [(''id'', PInt 3), (''title'', PStr ''B'')]]),
         ''in.json'' \<mapsto> Json (PList [PDict [(''id'', PInt 1), (''title'', PStr ''C'')]])],
        writable = (\<lambda>_. True), replaceable = (\<lambda>_. True), stderr = []\<rparr>))))
     = [3, 3, 4]"
    by (simp add: import_file_def import_body_def read_json_def from_dict_def from_dict_body_def
        propagate_def next_id_def enumerate_eq_zip save_def write_json_def Let_def)
  have loaded: "fst (snd (init (\<lambda>_. ''t0'') ''db''
     \<lparr>files = [''db'' \<mapsto> Json (PList
        [PDict [(''id'', PInt 3), (''title'', PStr ''A'')],
         PDict [(''id'', PInt 3), (''title'', PStr ''B'')]]),
       ''in.json'' \<mapsto> Json (PList [PDict [(''id'', PInt 1), (''title'', PStr ''C'')]])],
      writable = (\<lambda>_. True), replaceable = (\<lambda>_. True), stderr = []\<rparr>))
   = \<lparr>path = ''db'', tasks =
       [\<lparr>task_id = 3, title = ''A'', description = [], created_at = ''t0'', due = PNone,
         tags = [], done_flag = False\<rparr>,
        \<lparr>task_id = 3, title = ''B'', description = [], created_at = ''t0'', due = PNone,
         tags = [], done_flag = False\<rparr>]\<rparr>"
    by (simp add: init_def load_def load_body_def read_json_def from_dict_def from_dict_body_def
        propagate_def)
  show ?thesis
    unfolding ids using loaded by simp
qed

lemma from_dict_to_serializable: "from_dict now (to_serializable t) = Inr t"
  by (simp add: from_dict_def from_dict_body_def to_serializable_def propagate_def)

lemma from_dicts_dump: "from_dicts now (map to_serializable ts) = Inr ts"
  by (induction ts arbitrary: now) (simp_all add: from_dict_to_serializable propagate_def)

text \<open>
  Claim C5. After a successful \<open>export\<close> to a path, \<open>import_file\<close> of that path with
  \<open>merge=False\<close>, on any store, reads back the exported records: the collection of
  the importing store is then the exported collection, as a list of records with all
  their fields. The import raises only if its own save does.
\<close>

theorem export_import_roundtrip:
  "export db p w = (Inr (), w1) \<longrightarrow>
     import_body now p w1 = Inr (tasks db)
     \<and> tasks (fst (snd (import_file now db0 p False w1))) = tasks db
     \<and> map task_id (tasks (fst (snd (import_file now db0 p False w1)))) = map task_id (tasks db)
     \<and> fst (import_file now db0 p False w1) = fst (save (db0\<lparr>tasks := tasks db\<rparr>) w1)"
proof (intro impI)
  assume "export db p w = (Inr (), w1)"
  then have "files w1 p = Some (Json (dump db))"
    by (auto simp: export_def write_json_def split: if_splits)
  then have body: "import_body now p w1 = Inr (tasks db)"
    by (simp add: import_body_def read_json_def propagate_def dump_def from_dicts_dump)
  have "fst (import_file now db0 p False w1) = fst (save (db0\<lparr>tasks := tasks db\<rparr>) w1)"
    using body 
    by (cases "save (db0\<lparr>tasks := tasks db\<rparr>) w1")
       (auto simp: import_file_def save_def as_IOError_def Let_def split: sum.splits if_splits)
  with body show "import_body now p w1 = Inr (tasks db)
     \<and> tasks (fst (snd (import_file now db0 p False w1))) = tasks db
     \<and> map task_id (tasks (fst (snd (import_file now db0 p False w1)))) = map task_id (tasks db)
     \<and> fst (import_file now db0 p False w1) = fst (save (db0\<lparr>tasks := tasks db\<rparr>) w1)"
    by (simp add: import_file_def Let_def split: prod.splits sum.splits)
qed


theorem import_merge_fresh_ids_witness:
  "from_dicts (\<lambda>_. ''t9'')
     [PDict [(''id'', PInt 3), (''title'', PStr ''A'')],
      PDict [(''id'', PInt 3), (''title'', PStr ''B''), (''done'', PBool True)]]
   = Inr [\<lparr>task_id = 3, title = ''A'', description = [], created_at = ''t9'', due = PNone,
           tags = [], done_flag = False\<rparr>,
          \<lparr>task_id = 3, title = ''B'', description = [], created_at = ''t9'', due = PNone,
           tags = [], done_flag = True\<rparr>]
   \<and> distinct (map task_id (tasks \<lparr>path = ''db'', tasks = [\<lparr>task_id = 3, title = ''Old'',
        description = [], created_at = ''t0'', due = PNone, tags = [], done_flag = False\<rparr>]\<rparr>))
   \<and> tasks (fst (snd (import_file (\<lambda>_. ''t9'')
        \<lparr>path = ''db'', tasks = [\<lparr>task_id = 3, title = ''Old'', description = [],
           created_at = ''t0'', due = PNone, tags = [], done_flag = False\<rparr>]\<rparr>
        ''in.json'' True
        \<lparr>files = [''in.json'' \<mapsto> Json (PList
           [PDict [(''id'', PInt 3), (''title'', PStr ''A'')],
            PDict [(''id'', PInt 3), (''title'', PStr ''B''), (''done'', PBool True)]])],
         writable = (\<lambda>_. True), replaceable = (\<lambda>_. True), stderr = []\<rparr>)))
     = [\<lparr>task_id = 3, title = ''Old'', description = [], created_at = ''t0'', due = PNone,
         tags = [], done_flag = False\<rparr>,
        \<lparr>task_id = 4, title = ''A'', description = [], created_at = ''t9'', due = PNone,
         tags = [], done_flag = False\<rparr>,
        \<lparr>task_id = 5, title = ''B'', description = [], created_at = ''t9'', due = PNone,
         tags = [], done_flag = True\<rparr>]
   \<and> distinct (map task_id (tasks (fst (snd (import_file (\<lambda>_. ''t9'')
        \<lparr>path = ''db'', tasks = [\<lparr>task_id = 3, title = ''Old'', description = [],
           created_at = ''t0'', due = PNone, tags = [], done_flag = False\<rparr>]\<rparr>
        ''in.json'' True
        \<lparr>files = [''in.json'' \<mapsto> Json (PList
           [PDict [(''id'', PInt 3), (''title'', PStr ''A'')],
            PDict [(''id'', PInt 3), (''title'', PStr ''B''), (''done'', PBool True)]])],
         writable = (\<lambda>_. True), replaceable = (\<lambda>_. True), stderr = []\<rparr>)))))"
proof -
  let ?items = "[PDict [(''id'', PInt 3), (''title'', PStr ''A'')],
      PDict [(''id'', PInt 3), (''title'', PStr ''B''), (''done'', PBool True)]]"
  let ?new = "[\<lparr>task_id = 3, title = ''A'', description = [], created_at = ''t9'', due = PNone,
           tags = [], done_flag = False\<rparr>,
          \<lparr>task_id = 3, title = ''B'', description = [], created_at = ''t9'', due = PNone,
           tags = [], done_flag = True\<rparr>]"
  have parse: "from_dicts (\<lambda>_. ''t9'') ?items = Inr ?new"
    by (simp add: from_dict_def from_dict_body_def propagate_def)
  from parse import_merge_fresh_ids [of
      "\<lparr>files = [''in.json'' \<mapsto> Json (PList ?items)],
         writable = (\<lambda>_. True), replaceable = (\<lambda>_. True), stderr = []\<rparr>"
      "''in.json''" ?items "\<lambda>_. ''t9''" ?new
      "\<lparr>path = ''db'', tasks = [\<lparr>task_id = 3, title = ''Old'', description = [],
           created_at = ''t0'', due = PNone, tags = [], done_flag = False\<rparr>]\<rparr>"]
  show ?thesis
    by (simp add: next_id_def enumerate_eq_zip upt_rec)
qed

theorem export_import_roundtrip_witness:
  "fst (export
     \<lparr>path = ''db'', tasks =
        [\<lparr>task_id = 1, title = ''Buy milk'', description = [], created_at = ''t1'',
          due = PStr ''2025-12-05'', tags = [PStr ''shopping''], done_flag = True\<rparr>,
         \<lparr>task_id = 2, title = ''Pay rent'', description = [], created_at = ''t2'',
          due = PNone, tags = [], done_flag = False\<rparr>]\<rparr>
     ''backup.json''
     \<lparr>files = Map.empty, writable = (\<lambda>_. True), replaceable = (\<lambda>_. True), stderr = []\<rparr>)
   = Inr ()
   \<and> tasks (fst (snd (import_file (\<lambda>_. ''t9'') \<lparr>path = ''fresh'', tasks = []\<rparr> ''backup.json'' False
       (snd (export
         \<lparr>path = ''db'', tasks =
            [\<lparr>task_id = 1, title = ''Buy milk'', description = [], created_at = ''t1'',
              due = PStr ''2025-12-05'', tags = [PStr ''shopping''], done_flag = True\<rparr>,
             \<lparr>task_id = 2, title = ''Pay rent'', description = [], created_at = ''t2'',
              due = PNone, tags = [], done_flag = False\<rparr>]\<rparr>
         ''backup.json''
         \<lparr>files = Map.empty, writable = (\<lambda>_. True), replaceable = (\<lambda>_. True),
          stderr = []\<rparr>)))))
     = [\<lparr>task_id = 1, title = ''Buy milk'', description = [], created_at = ''t1'',
          due = PStr ''2025-12-05'', tags = [PStr ''shopping''], done_flag = True\<rparr>,
         \<lparr>task_id = 2, title = ''Pay rent'', description = [], created_at = ''t2'',
          due = PNone, tags = [], done_flag = False\<rparr>]"
proof -
  let ?db = "\<lparr>path = ''db'', tasks =
        [\<lparr>task_id = 1, title = ''Buy milk'', description = [], created_at = ''t1'',
          due = PStr ''2025-12-05'', tags = [PStr ''shopping''], done_flag = True\<rparr>,
         \<lparr>task_id = 2, title = ''Pay rent'', description = [], created_at = ''t2'',
          due = PNone, tags = [], done_flag = False\<rparr>]\<rparr>"
  let ?w = "\<lparr>files = Map.empty, writable = (\<lambda>_. True), replaceable = (\<lambda>_. True), stderr = []\<rparr>"
  have ok: "fst (export ?db ''backup.json'' ?w) = Inr ()"
    by (simp add: export_def write_json_def)
  then have "export ?db ''backup.json'' ?w = (Inr (), snd (export ?db ''backup.json'' ?w))"
    by (metis prod.collapse)
  from export_import_roundtrip [of ?db "''backup.json''" ?w "snd (export ?db ''backup.json'' ?w)"
      "\<lambda>_. ''t9''" "\<lparr>path = ''fresh'', tasks = []\<rparr>"] this ok
  show ?thesis by simp
qed

section \<open>Search\<close>

lemma times_code: "c = CHR 0xD7 \<longleftrightarrow> (of_char c :: nat) = 215"
proof -
  have "(of_char (CHR 0xD7) :: nat) = 215" by simp
  then show ?thesis by (metis of_char_eq_iff)
qed

lemma is_capital_code:
  "is_capital c \<longleftrightarrow>
     (65 \<le> (of_char c :: nat) \<and> (of_char c :: nat) \<le> 90)
     \<or> (192 \<le> (of_char c :: nat) \<and> (of_char c :: nat) \<le> 222 \<and> (of_char c :: nat) \<noteq> 215)"
  by (simp add: is_capital_def in_range_def times_code)

lemma of_char_lower_char:
  "(of_char (lower_char c) :: nat) = (if is_capital c then of_char c + 32 else of_char c)"
  by (simp add: lower_char_def is_capital_code Let_def)


lemma same_letter_iff: "same_letter x y \<longleftrightarrow> lower_char x = lower_char y"
proof -
  define a b where ab: "a = (of_char x :: nat)" "b = (of_char y :: nat)"
  have low: "lower_char x = lower_char y
        \<longleftrightarrow> (of_char (lower_char x) :: nat) = of_char (lower_char y)"
    by simp
  have eq: "x = y \<longleftrightarrow> a = b"
    by (simp add: ab)
  have "(a = b \<or> (((65 \<le> a \<and> a \<le> 90) \<or> (192 \<le> a \<and> a \<le> 222 \<and> a \<noteq> 215)) \<and> b = a + 32)
          \<or> (((65 \<le> b \<and> b \<le> 90) \<or> (192 \<le> b \<and> b \<le> 222 \<and> b \<noteq> 215)) \<and> a = b + 32))
        \<longleftrightarrow> (if (65 \<le> a \<and> a \<le> 90) \<or> (192 \<le> a \<and> a \<le> 222 \<and> a \<noteq> 215) then a + 32 else a)
            = (if (65 \<le> b \<and> b \<le> 90) \<or> (192 \<le> b \<and> b \<le> 222 \<and> b \<noteq> 215) then b + 32 else b)"
    by (simp split: if_splits) arith
  then show ?thesis
    unfolding same_letter_def small_of_capital_def low eq of_char_lower_char is_capital_code
      ab [symmetric]
    by simp
qed

lemma same_letter_lower: "list_all2 same_letter a b \<longleftrightarrow> lower a = lower b"
proof -
  have "lower a = lower b \<longleftrightarrow> list_all2 (=) (map lower_char a) (map lower_char b)"
    by (simp add: lower_def list_all2_eq)
  also have "\<dots> \<longleftrightarrow> list_all2 (\<lambda>x y. lower_char x = lower_char y) a b"
    by (simp add: list_all2_map1 list_all2_map2)
  also have "(\<lambda>x y. lower_char x = lower_char y) = same_letter"
    by (simp add: same_letter_iff fun_eq_iff)
  finally show ?thesis by simp
qed

lemma sublist_lower: "sublist (lower q) (lower s) \<longleftrightarrow> spec_contains q s"
proof
  assume "sublist (lower q) (lower s)"
  then obtain ps ss where ps: "lower s = ps @ lower q @ ss"
    by (auto simp: sublist_def)
  let ?i = "length ps"
  have len: "length (lower s) = length s" "length (lower q) = length q"
    by (simp_all add: lower_def)
  have "?i \<le> length s"
    using ps len by (metis length_append le_add1)
  moreover have "lower (take (length q) (drop ?i s)) = take (length q) (drop ?i (lower s))"
    by (simp add: lower_def take_map drop_map)
  then have "lower (take (length q) (drop ?i s)) = lower q"
    using ps len by simp
  then have "list_all2 same_letter q (take (length q) (drop ?i s))"
    by (simp add: same_letter_lower)
  ultimately show "spec_contains q s"
    unfolding spec_contains_def by (intro bexI [of _ ?i]) auto
next
  assume "spec_contains q s"
  then obtain i where i: "i \<le> length s"
    and m: "list_all2 same_letter q (take (length q) (drop i s))"
    unfolding spec_contains_def by (auto simp: less_Suc_eq_le simp del: upt_Suc)
  let ?mid = "take (length q) (drop i s)"
  have "lower q = lower ?mid"
    using m by (simp add: same_letter_lower)
  moreover have "s = take i s @ ?mid @ drop (length q) (drop i s)"
    by (metis append_take_drop_id)
  then have "lower s = lower (take i s) @ lower ?mid @ lower (drop (length q) (drop i s))"
    unfolding lower_def by (metis map_append)
  ultimately show "sublist (lower q) (lower s)"
    unfolding sublist_def by metis
qed

lemma strs_text: "list_all is_text vs \<Longrightarrow> strs vs = Inr (map text_of vs)"
proof (induction vs)
  case Nil
  then show ?case by simp
next
  case (Cons v vs)
  then show ?case by (cases v) (simp_all add: propagate_def)
qed

lemma matches_spec: "text_tags t \<Longrightarrow> matches (lower q) t = Inr (spec_matches q t)"
  by (simp add: matches_def spec_matches_def join_tags_def text_tags_def strs_text propagate_def
      sublist_lower)

lemma select_spec:
  "\<forall>t\<in>set ts. text_tags t \<Longrightarrow> select (lower q) ts = Inr (filter (spec_matches q) ts)"
  by (induction ts) (simp_all add: matches_spec propagate_def)

lemma select_empty: "select [] ts = Inr ts"
  by (induction ts) (simp_all add: matches_def propagate_def)

text \<open>
  Claim C7, as amended. On a store whose records have text tags, with strings of code
  points below U+0100, \<open>search\<close> returns, in the order of the collection, exactly the
  records whose title, description or space-joined tags contain the query as a
  case-insensitive substring. On every store the empty query returns the whole
  collection in its order.
\<close>

theorem search_case_insensitive:
  "((\<forall>t\<in>set (tasks db). text_tags t) \<longrightarrow> search db q = Inr (spec_search (tasks db) q))
   \<and> search db [] = Inr (tasks db)"
  using select_spec [of "tasks db" q] select_empty [of "tasks db"]
  by (simp add: search_def spec_search_def lower_def)

theorem search_case_insensitive_witness:
  "list_all text_tags (tasks \<lparr>path = ''db'', tasks =
        [\<lparr>task_id = 1, title = ''Buy milk'', description = [], created_at = ''t1'',
          due = PStr ''2025-12-05'', tags = [PStr ''shopping''], done_flag = True\<rparr>,
         \<lparr>task_id = 2, title = ''Pay rent'', description = [], created_at = ''t2'',
          due = PNone, tags = [], done_flag = False\<rparr>,
         \<lparr>task_id = 3, title = ''Call Ann'', description = ''about the Milkman'',
          created_at = ''t3'', due = PNone, tags = [], done_flag = False\<rparr>,
         \<lparr>task_id = 4, title = ''Cook'', description = [], created_at = ''t4'',
          due = PNone, tags = [PStr ''oat'', PStr ''MILK''], done_flag = False\<rparr>]\<rparr>)
   \<and> search \<lparr>path = ''db'', tasks =
        [\<lparr>task_id = 1, title = ''Buy milk'', description = [], created_at = ''t1'',
          due = PStr ''2025-12-05'', tags = [PStr ''shopping''], done_flag = True\<rparr>,
         \<lparr>task_id = 2, title = ''Pay rent'', description = [], created_at = ''t2'',
          due = PNone, tags = [], done_flag = False\<rparr>,
         \<lparr>task_id = 3, title = ''Call Ann'', description = ''about the Milkman'',
          created_at = ''t3'', due = PNone, tags = [], done_flag = False\<rparr>,
         \<lparr>task_id = 4, title = ''Cook'', description = [], created_at = ''t4'',
          due = PNone, tags = [PStr ''oat'', PStr ''MILK''], done_flag = False\<rparr>]\<rparr> ''MILK''
     = Inr (spec_search
        [\<lparr>task_id = 1, title = ''Buy milk'', description = [], created_at = ''t1'',
          due = PStr ''2025-12-05'', tags = [PStr ''shopping''], done_flag = True\<rparr>,
         \<lparr>task_id = 2, title = ''Pay rent'', description = [], created_at = ''t2'',
          due = PNone, tags = [], done_flag = False\<rparr>,
         \<lparr>task_id = 3, title = ''Call Ann'', description = ''about the Milkman'',
          created_at = ''t3'', due = PNone, tags = [], done_flag = False\<rparr>,
         \<lparr>task_id = 4, title = ''Cook'', description = [], created_at = ''t4'',
          due = PNone, tags = [PStr ''oat'', PStr ''MILK''], done_flag = False\<rparr>] ''MILK'')
   \<and> spec_search
        [\<lparr>task_id = 1, title = ''Buy milk'', description = [], created_at = ''t1'',
          due = PStr ''2025-12-05'', tags = [PStr ''shopping''], done_flag = True\<rparr>,
         \<lparr>task_id = 2, title = ''Pay rent'', description = [], created_at = ''t2'',
          due = PNone, tags = [], done_flag = False\<rparr>,
         \<lparr>task_id = 3, title = ''Call Ann'', description = ''about the Milkman'',
          created_at = ''t3'', due = PNone, tags = [], done_flag = False\<rparr>,
         \<lparr>task_id = 4, title = ''Cook'', description = [], created_at = ''t4'',
          due = PNone, tags = [PStr ''oat'', PStr ''MILK''], done_flag = False\<rparr>] ''MILK''
     = [\<lparr>task_id = 1, title = ''Buy milk'', description = [], created_at = ''t1'',
          due = PStr ''2025-12-05'', tags = [PStr ''shopping''], done_flag = True\<rparr>,
         \<lparr>task_id = 3, title = ''Call Ann'', description = ''about the Milkman'',
          created_at = ''t3'', due = PNone, tags = [], done_flag = False\<rparr>,
         \<lparr>task_id = 4, title = ''Cook'', description = [], created_at = ''t4'',
          due = PNone, tags = [PStr ''oat'', PStr ''MILK''], done_flag = False\<rparr>]"
proof -
  let ?ts = "[\<lparr>task_id = 1, title = ''Buy milk'', description = [], created_at = ''t1'',
          due = PStr ''2025-12-05'', tags = [PStr ''shopping''], done_flag = True\<rparr>,
         \<lparr>task_id = 2, title = ''Pay rent'', description = [], created_at = ''t2'',
          due = PNone, tags = [], done_flag = False\<rparr>,
         \<lparr>task_id = 3, title = ''Call Ann'', description = ''about the Milkman'',
          created_at = ''t3'', due = PNone, tags = [], done_flag = False\<rparr>,
         \<lparr>task_id = 4, title = ''Cook'', description = [], created_at = ''t4'',
          due = PNone, tags = [PStr ''oat'', PStr ''MILK''], done_flag = False\<rparr>]"
  have tt: "list_all text_tags (tasks \<lparr>path = ''db'', tasks = ?ts\<rparr>)"
    by (simp add: text_tags_def)
  have spec: "spec_search ?ts ''MILK''
     = [\<lparr>task_id = 1, title = ''Buy milk'', description = [], created_at = ''t1'',
          due = PStr ''2025-12-05'', tags = [PStr ''shopping''], done_flag = True\<rparr>,
         \<lparr>task_id = 3, title = ''Call Ann'', description = ''about the Milkman'',
          created_at = ''t3'', due = PNone, tags = [], done_flag = False\<rparr>,
         \<lparr>task_id = 4, title = ''Cook'', description = [], created_at = ''t4'',
          due = PNone, tags = [PStr ''oat'', PStr ''MILK''], done_flag = False\<rparr>]"
    by code_simp
  from search_case_insensitive [of "\<lparr>path = ''db'', tasks = ?ts\<rparr>" "''MILK''"] tt spec
  show ?thesis by (simp add: list_all_iff)
qed

text \<open>
  Claim C7 as it was stated, for every store, fails on a store that holds a record
  whose tags are not text. \<open>_load\<close> builds such a store from a file with the tags
  \<open>[1, 2]\<close>; \<open>search\<close> for \<open>milk\<close> then raises \<open>TypeError\<close> where it joins the
  tags, and returns no list of records.
\<close>

theorem search_raises_on_loaded_tags:
  "fst (snd (init (\<lambda>_. ''t0'') ''db''
     \<lparr>files = [''db'' \<mapsto> Json (PList
        [PDict [(''id'', PInt 1), (''title'', PStr ''x''), (''tags'', PList [PInt 1, PInt 2])]])],
      writable = (\<lambda>_. True), replaceable = (\<lambda>_. True), stderr = []\<rparr>))
   = \<lparr>path = ''db'', tasks =
       [\<lparr>task_id = 1, title = ''x'', description = [], created_at = ''t0'', due = PNone,
         tags = [PInt 1, PInt 2], done_flag = False\<rparr>]\<rparr>
   \<and> search \<lparr>path = ''db'', tasks =
       [\<lparr>task_id = 1, title = ''x'', description = [], created_at = ''t0'', due = PNone,
         tags = [PInt 1, PInt 2], done_flag = False\<rparr>]\<rparr> ''milk''
     = Inl TypeError
   \<and> search \<lparr>path = ''db'', tasks =
       [\<lparr>task_id = 1, title = ''x'', description = [], created_at = ''t0'', due = PNone,
         tags = [PInt 1, PInt 2], done_flag = False\<rparr>]\<rparr> ''milk''
     \<noteq> Inr (spec_search
       [\<lparr>task_id = 1, title = ''x'', description = [], created_at = ''t0'', due = PNone,
         tags = [PInt 1, PInt 2], done_flag = False\<rparr>] ''milk'')"
proof -
  have loaded: "fst (snd (init (\<lambda>_. ''t0'') ''db''
     \<lparr>files = [''db'' \<mapsto> Json (PList
        [PDict [(''id'', PInt 1), (''title'', PStr ''x''), (''tags'', PList [PInt 1, PInt 2])]])],
      writable = (\<lambda>_. True), replaceable = (\<lambda>_. True), stderr = []\<rparr>))
   = \<lparr>path = ''db'', tasks =
       [\<lparr>task_id = 1, title = ''x'', description = [], created_at = ''t0'', due = PNone,
         tags = [PInt 1, PInt 2], done_flag = False\<rparr>]\<rparr>"
    by (simp add: init_def load_def load_body_def read_json_def from_dict_def from_dict_body_def
        propagate_def)
  have raised: "search \<lparr>path = ''db'', tasks =
       [\<lparr>task_id = 1, title = ''x'', description = [], created_at = ''t0'', due = PNone,
         tags = [PInt 1, PInt 2], done_flag = False\<rparr>]\<rparr> ''milk''
     = Inl TypeError"
    by code_simp
  show ?thesis
    unfolding raised using loaded by simp
qed

text \<open>
  Letters and containment on examples, with capitals beyond ASCII: U+00C9 and U+00E9
  are the same letter, U+00D7 and U+00F7 (the multiplication and the division sign)
  are not.
\<close>

lemma same_letter_examples:
  "same_letter CHR ''M'' CHR ''m'' \<and> same_letter CHR ''m'' CHR ''M''
   \<and> \<not> same_letter CHR ''m'' CHR ''n'' \<and> \<not> same_letter CHR ''@'' CHR 0x60
   \<and> same_letter (CHR 0xC9) (CHR 0xE9) \<and> \<not> same_letter (CHR 0xD7) (CHR 0xF7)
   \<and> \<not> same_letter (CHR 0xDF) (CHR 0xFF)
   \<and> spec_contains ''MILK'' ''Buy milk'' \<and> spec_contains ''y M'' ''Buy milk''
   \<and> \<not> spec_contains ''milks'' ''Buy milk'' \<and> spec_contains [] ''Buy milk''
   \<and> spec_contains [CHR 0xE9, CHR ''C''] [CHR ''L'', CHR 0xC9, CHR ''c'', CHR ''o'']"
  by code_simp

lemma search_examples:
  "search \<lparr>path = ''db'', tasks =
       [\<lparr>task_id = 1, title = [CHR 0xC9, CHR ''c'', CHR ''o'', CHR ''l'', CHR ''e''],
         description = [], created_at = ''t0'', due = PNone, tags = [], done_flag = False\<rparr>,
        \<lparr>task_id = 2, title = ''Pay rent'', description = [], created_at = ''t0'', due = PNone,
         tags = [PStr ''home'', PStr ''Monthly''], done_flag = False\<rparr>]\<rparr>
     [CHR 0xE9, CHR ''C'', CHR ''O'']
   = Inr [\<lparr>task_id = 1, title = [CHR 0xC9, CHR ''c'', CHR ''o'', CHR ''l'', CHR ''e''],
         description = [], created_at = ''t0'', due = PNone, tags = [], done_flag = False\<rparr>]
   \<and> search \<lparr>path = ''db'', tasks =
       [\<lparr>task_id = 1, title = [CHR 0xC9, CHR ''c'', CHR ''o'', CHR ''l'', CHR ''e''],
         description = [], created_at = ''t0'', due = PNone, tags = [], done_flag = False\<rparr>,
        \<lparr>task_id = 2, title = ''Pay rent'', description = [], created_at = ''t0'', due = PNone,
         tags = [PStr ''home'', PStr ''Monthly''], done_flag = False\<rparr>]\<rparr>
     ''E MONTH''
   = Inr [\<lparr>task_id = 2, title = ''Pay rent'', description = [], created_at = ''t0'', due = PNone,
         tags = [PStr ''home'', PStr ''Monthly''], done_flag = False\<rparr>]"
  by code_simp

section \<open>Editing\<close>












section \<open>Where the code departs from the specification\<close>

lemma add_invalid_date_unchanged:
  "d \<noteq> [] \<Longrightarrow> validate_date d = Inl ValueError
   \<Longrightarrow> add now db title_arg description_arg (Some d) tags_arg w = (Inl ValueError, db, w)"
  by (simp add: add_def add_check_due_def)

lemma assign_same: "find (\<lambda>u. task_id u = i) ts = Some t \<Longrightarrow> assign i t ts = ts"
  by (induction ts) (auto split: if_splits)

lemma edit_invalid_date_only_unchanged:
  "d \<noteq> [] \<Longrightarrow> validate_date d = Inl ValueError \<Longrightarrow> find_by_id db i = Inr t
   \<Longrightarrow> edit db i None None (Some d) tags_arg w = (Inl ValueError, db, w)"
  by (auto simp: edit_def edit_fields_def edit_due_def propagate_def find_by_id_def assign_same
      split: option.splits)

lemma edit_invalid_date_world_unchanged:
  "d \<noteq> [] \<Longrightarrow> validate_date d = Inl ValueError
   \<Longrightarrow> snd (snd (edit db i title_arg description_arg (Some d) tags_arg w)) = w"
  by (auto simp: edit_def edit_fields_def edit_due_def propagate_def Let_def split: sum.splits)

text \<open>
  Claim C1, at the input where the code departs from it. \<open>add\<close> validates the date
  before it touches the store (\<open>add_invalid_date_unchanged\<close>), and no failed call
  writes a file. \<open>edit\<close> assigns the title and the description before it validates
  the date: with a new title and the date \<open>2025-13-40\<close> it raises \<open>ValueError\<close>
  and leaves the record in the store with the new title.
\<close>

theorem edit_invalid_date_changes_store:
  "edit \<lparr>path = ''db'', tasks = [\<lparr>task_id = 1, title = ''Buy milk'', description = [], created_at = ''t1'',
                                due = PNone, tags = [], done_flag = False\<rparr>]\<rparr> 1
     (Some ''Buy bread'') None (Some ''2025-13-40'') None
     \<lparr>files = Map.empty, writable = (\<lambda>_. True), replaceable = (\<lambda>_. True), stderr = []\<rparr>
   = (Inl ValueError,
      \<lparr>path = ''db'', tasks = [\<lparr>task_id = 1, title = ''Buy bread'', description = [], created_at = ''t1'',
                              due = PNone, tags = [], done_flag = False\<rparr>]\<rparr>,
      \<lparr>files = Map.empty, writable = (\<lambda>_. True), replaceable = (\<lambda>_. True), stderr = []\<rparr>)"
proof -
  have "validate_date ''2025-13-40'' = Inl ValueError"
    by code_simp
  then show ?thesis
    by (simp add: edit_def find_by_id_def edit_fields_def edit_due_def propagate_def)
qed

text \<open>
  Claim C2, at inputs where the code departs from it. \<open>_validate_date\<close> accepts
  \<open>2025-1-5\<close> and \<open>2025-01- 5\<close>, which do not have a two-digit month and a
  two-digit day.
\<close>

theorem validate_date_accepts_short_fields:
  "validate_date ''2025-1-5'' = Inr () \<and> \<not> spec_date ''2025-1-5''
   \<and> validate_date ''2025-01- 5'' = Inr () \<and> \<not> spec_date ''2025-01- 5''"
  by code_simp

lemma spec_date_examples:
  "spec_date ''2025-12-05'' \<and> validate_date ''2025-12-05'' = Inr ()
   \<and> \<not> spec_date ''2025-02-30'' \<and> validate_date ''2025-02-30'' = Inl ValueError
   \<and> \<not> spec_date ''2025-13-40'' \<and> validate_date ''2025-13-40'' = Inl ValueError
   \<and> spec_date ''2024-02-29'' \<and> validate_date ''2024-02-29'' = Inr ()"
  by code_simp

text \<open>
  Claim C9, at the input where the code departs from it. \<open>from_dict\<close> turns
  \<open>tags\<close> into a list and leaves its elements as they are: the tags \<open>[1, 2]\<close> stay
  integers, and \<open>search\<close> on a store that holds such a record raises
  \<open>TypeError\<close> when it joins the tags.
\<close>

theorem from_dict_keeps_tag_types:
  "from_dict now (PDict [(''id'', PInt 1), (''title'', PStr ''x''), (''tags'', PList [PInt 1, PInt 2])])
   = Inr \<lparr>task_id = 1, title = ''x'', description = [], created_at = now, due = PNone,
          tags = [PInt 1, PInt 2], done_flag = False\<rparr>
   \<and> \<not> text_tags \<lparr>task_id = 1, title = ''x'', description = [], created_at = now, due = PNone,
          tags = [PInt 1, PInt 2], done_flag = False\<rparr>
   \<and> search \<lparr>path = ''db'', tasks = [\<lparr>task_id = 1, title = ''x'', description = [], created_at = ''t1'',
        due = PNone, tags = [PInt 1, PInt 2], done_flag = False\<rparr>]\<rparr> ''milk'' = Inl TypeError"
  apply (intro conjI)
  apply (simp add: from_dict_def from_dict_body_def propagate_def)
  apply (simp add: text_tags_def)
  apply code_simp
  done

section \<open>What the date validator and \<open>from_dict\<close> guarantee\<close>

text \<open>
  Every date in the documented format, from the year 0001 on, passes \<open>_validate_date\<close>
  (\<open>spec_date_accepted\<close>). A record that \<open>from_dict\<close> returns has the id that
  \<open>int()\<close> makes of the \<open>id\<close> entry, the title that \<open>str()\<close> makes of the
  \<open>title\<close> entry, and the default of every other entry that is absent
  (\<open>from_dict_fields\<close>); without an \<open>id\<close> or a \<open>title\<close>, or with an \<open>id\<close>
  that \<open>int()\<close> rejects, \<open>from_dict\<close> raises \<open>ValueError\<close>.
\<close>

lemma digit_val_range: "is_digit c \<Longrightarrow> 0 \<le> digit_val c \<and> digit_val c \<le> 9"
  by (auto simp: is_digit_def digit_val_def)

lemma digit_not_space: "is_digit c \<Longrightarrow> \<not> int_space c"
  by (auto simp: is_digit_def int_space_def Let_def)

lemma digit_not_sign: "is_digit c \<Longrightarrow> c \<noteq> CHR ''-'' \<and> c \<noteq> CHR ''+''"
  by (auto simp: is_digit_def)

lemma int_digits_all:
  "list_all is_digit ds \<Longrightarrow> ds \<noteq> [] \<or> b
   \<Longrightarrow> int_digits b acc ds = Some (foldl (\<lambda>a c. a * 10 + digit_val c) acc ds)"
  by (induction ds arbitrary: b acc) auto

lemma strip_space_digits:
  "list_all is_digit ds \<Longrightarrow> strip_space ds = ds"
proof (cases ds rule: rev_cases)
  case Nil
  then show ?thesis by (simp add: strip_space_def)
next
  case (snoc xs x)
  assume a: "list_all is_digit ds"
  with snoc have x: "\<not> int_space x" by (simp add: digit_not_space)
  from a snoc have "ds = [] \<or> \<not> int_space (hd ds)"
    by (cases xs) (auto simp: digit_not_space)
  then have "dropWhile int_space ds = ds"
    by (cases ds) auto
  then show ?thesis using snoc x by (simp add: strip_space_def)
qed

lemma int_of_str_digits:
  "list_all is_digit ds \<Longrightarrow> ds \<noteq> [] \<Longrightarrow> int_of_str ds = Some (number ds)"
proof -
  assume a: "list_all is_digit ds" and ne: "ds \<noteq> []"
  then obtain c cs where ds: "ds = c # cs" by (cases ds) auto
  with a have "c \<noteq> CHR ''-''" "c \<noteq> CHR ''+''"
    using digit_not_sign [of c] by auto
  then show ?thesis
    using a ds int_digits_all [of ds False 0]
    by (simp add: int_of_str_def strip_space_digits number_def)
qed


lemma digit_is: "is_digit c \<Longrightarrow> digit_val c = int (of_char d) - 48 \<Longrightarrow> c = d"
proof -
  assume "is_digit c" and "digit_val c = int (of_char d) - 48"
  then have "(of_char c :: nat) = of_char d"
    by (auto simp: is_digit_def digit_val_def)
  then show ?thesis by simp
qed

lemma number2: "number [a, b] = digit_val a * 10 + digit_val b"
  by (simp add: number_def)

lemma number4: "number [a, b, c, d] = ((digit_val a * 10 + digit_val b) * 10 + digit_val c) * 10 + digit_val d"
  by (simp add: number_def)

lemma month_first:
  "is_digit m1 \<Longrightarrow> is_digit m2 \<Longrightarrow> 1 \<le> number [m1, m2] \<Longrightarrow> number [m1, m2] \<le> 12
   \<Longrightarrow> (m1 = CHR ''0'' \<and> 1 \<le> digit_val m2) \<or> (m1 = CHR ''1'' \<and> digit_val m2 \<le> 2)"
proof -
  assume d1: "is_digit m1" and d2: "is_digit m2"
    and lo: "1 \<le> number [m1, m2]" and hi: "number [m1, m2] \<le> 12"
  from digit_val_range [OF d1] digit_val_range [OF d2] lo hi
  have "(digit_val m1 = 0 \<and> 1 \<le> digit_val m2) \<or> (digit_val m1 = 1 \<and> digit_val m2 \<le> 2)"
    unfolding number2 by arith
  then show ?thesis
    using digit_is [OF d1, of "CHR ''0''"] digit_is [OF d1, of "CHR ''1''"] by auto
qed

lemma re_m_strict:
  "is_digit m1 \<Longrightarrow> is_digit m2 \<Longrightarrow> 1 \<le> number [m1, m2] \<Longrightarrow> number [m1, m2] \<le> 12
   \<Longrightarrow> [(m, r4). (m, r3) \<leftarrow> re_m (m1 # m2 # CHR ''-'' # rest), r4 \<leftarrow> lit CHR ''-'' r3]
       = [([m1, m2], rest)]"
proof -
  assume d1: "is_digit m1" and d2: "is_digit m2"
    and lo: "1 \<le> number [m1, m2]" and hi: "number [m1, m2] \<le> 12"
  from month_first [OF d1 d2 lo hi] digit_not_sign [OF d2] d2
  show ?thesis
    by (auto simp: re_m_def two_def one_def lit_def in_range_def is_digit_def digit_val_def)
qed

lemma day_first:
  "is_digit d1 \<Longrightarrow> is_digit d2 \<Longrightarrow> 1 \<le> number [d1, d2] \<Longrightarrow> number [d1, d2] \<le> 31
   \<Longrightarrow> (d1 = CHR ''0'' \<and> 1 \<le> digit_val d2) \<or> d1 = CHR ''1'' \<or> d1 = CHR ''2''
       \<or> (d1 = CHR ''3'' \<and> digit_val d2 \<le> 1)"
proof -
  assume d1: "is_digit d1" and d2: "is_digit d2"
    and lo: "1 \<le> number [d1, d2]" and hi: "number [d1, d2] \<le> 31"
  from digit_val_range [OF d1] digit_val_range [OF d2] lo hi
  have "(digit_val d1 = 0 \<and> 1 \<le> digit_val d2) \<or> digit_val d1 = 1 \<or> digit_val d1 = 2
        \<or> (digit_val d1 = 3 \<and> digit_val d2 \<le> 1)"
    unfolding number2 by arith
  then show ?thesis
    using digit_is [OF d1, of "CHR ''0''"] digit_is [OF d1, of "CHR ''1''"]
      digit_is [OF d1, of "CHR ''2''"] digit_is [OF d1, of "CHR ''3''"] by auto
qed

lemma re_d_strict:
  "is_digit d1 \<Longrightarrow> is_digit d2 \<Longrightarrow> 1 \<le> number [d1, d2] \<Longrightarrow> number [d1, d2] \<le> 31
   \<Longrightarrow> \<exists>more. re_d [d1, d2] = ([d1, d2], []) # more"
proof -
  assume d1: "is_digit d1" and d2: "is_digit d2"
    and lo: "1 \<le> number [d1, d2]" and hi: "number [d1, d2] \<le> 31"
  from day_first [OF d1 d2 lo hi] d2
  show ?thesis
    by (auto simp: re_d_def two_def one_def in_range_def is_digit_def digit_val_def)
qed


lemma concat_map_concat:
  "concat (map F (concat (map G xs))) = concat (map (\<lambda>x. concat (map F (G x))) xs)"
  by (induction xs) simp_all

lemma concat_map_singletons:
  "concat (map F (concat (map (\<lambda>r. [k r]) ys))) = concat (map (\<lambda>r. F (k r)) ys)"
  by (induction ys) simp_all

lemma re_date_strict:
  assumes "list_all is_digit [y1, y2, y3, y4]" "is_digit m1" "is_digit m2" "is_digit d1" "is_digit d2"
    and "1 \<le> number [m1, m2]" "number [m1, m2] \<le> 12"
    and "1 \<le> number [d1, d2]" "number [d1, d2] \<le> 31"
  shows "\<exists>more. re_date [y1, y2, y3, y4, CHR ''-'', m1, m2, CHR ''-'', d1, d2]
           = ([y1, y2, y3, y4], [m1, m2], [d1, d2], []) # more"
proof -
  have y: "re_Y [y1, y2, y3, y4, CHR ''-'', m1, m2, CHR ''-'', d1, d2]
           = [([y1, y2, y3, y4], [CHR ''-'', m1, m2, CHR ''-'', d1, d2])]"
    using assms(1) by (simp add: re_Y_def)
  have m: "[(m, r4). (m, r3) \<leftarrow> re_m [m1, m2, CHR ''-'', d1, d2], r4 \<leftarrow> lit CHR ''-'' r3]
       = [([m1, m2], [d1, d2])]"
    using assms by (intro re_m_strict)
  obtain more where d: "re_d [d1, d2] = ([d1, d2], []) # more"
    using re_d_strict [OF assms(4) assms(5) assms(8) assms(9)] by blast
  have stage: "[(y, m, d, r5).
        (y, r1) \<leftarrow> [([y1, y2, y3, y4], [CHR ''-'', m1, m2, CHR ''-'', d1, d2])],
        r2 \<leftarrow> lit CHR ''-'' r1,
        (m, r3) \<leftarrow> re_m r2, r4 \<leftarrow> lit CHR ''-'' r3,
        (d, r5) \<leftarrow> re_d r4]
     = [([y1, y2, y3, y4], m, d, r5).
        (m, r4) \<leftarrow> [(m, r4). (m, r3) \<leftarrow> re_m [m1, m2, CHR ''-'', d1, d2], r4 \<leftarrow> lit CHR ''-'' r3],
        (d, r5) \<leftarrow> re_d r4]"
    by (simp add: lit_def concat_map_concat concat_map_singletons split_def comp_def)
  show ?thesis
    unfolding re_date_def y stage m by (simp add: d)
qed


lemma length_ten:
  "length s = 10 \<Longrightarrow> \<exists>a b c d e f g h i j. s = [a, b, c, d, e, f, g, h, i, j]"
  by (auto simp: length_Suc_conv eval_nat_numeral)

lemma days_in_month_le: "days_in_month y m \<le> 31"
  by (simp add: days_in_month_def)

lemma spec_date_accepted:
  assumes "spec_date s" and "1 \<le> number (take 4 s)"
  shows "validate_date s = Inr ()"
proof -
  from assms(1) have "length s = 10" by (simp add: spec_date_def)
  then obtain y1 y2 y3 y4 h1 m1 m2 h2 d1 d2 where
    s: "s = [y1, y2, y3, y4, h1, m1, m2, h2, d1, d2]"
    using length_ten [of s] by auto
  from assms(1) s have h: "h1 = CHR ''-''" "h2 = CHR ''-''"
    and dy: "list_all is_digit [y1, y2, y3, y4]"
    and dm: "is_digit m1" "is_digit m2" and dd: "is_digit d1" "is_digit d2"
    and m: "1 \<le> number [m1, m2]" "number [m1, m2] \<le> 12"
    and d: "1 \<le> number [d1, d2]"
      "number [d1, d2] \<le> days_in_month (number [y1, y2, y3, y4]) (number [m1, m2])"
    by (simp_all add: spec_date_def)
  from d(2) have d31: "number [d1, d2] \<le> 31"
    using days_in_month_le [of "number [y1, y2, y3, y4]" "number [m1, m2]"] by linarith
  obtain more where re: "re_date s = ([y1, y2, y3, y4], [m1, m2], [d1, d2], []) # more"
    using re_date_strict [OF dy dm dd m d(1) d31] s h by blast
  have iy: "int_of_str [y1, y2, y3, y4] = Some (number [y1, y2, y3, y4])"
    using dy by (intro int_of_str_digits) simp_all
  have im: "int_of_str [m1, m2] = Some (number [m1, m2])"
    using dm by (intro int_of_str_digits) simp_all
  have id: "int_of_str [d1, d2] = Some (number [d1, d2])"
    using dd by (intro int_of_str_digits) simp_all
  have "number [y1, y2, y3, y4] \<le> 9999"
    using dy digit_val_range [of y1] digit_val_range [of y2] digit_val_range [of y3]
      digit_val_range [of y4]
    unfolding number4 by simp
  moreover have "1 \<le> number [y1, y2, y3, y4]"
    using assms(2) s by simp
  ultimately have "date (number [y1, y2, y3, y4]) (number [m1, m2]) (number [d1, d2])
    = Inr (number [y1, y2, y3, y4], number [m1, m2], number [d1, d2])"
    using m d by (simp add: date_def)
  then show ?thesis
    by (simp add: validate_date_def strptime_def re iy im id)
qed


lemma from_dict_Inr:
  "from_dict now d = Inr t \<longleftrightarrow> from_dict_body now d = Inr t"
  by (cases "from_dict_body now d") (auto simp: from_dict_def)

lemma from_dict_fields:
  assumes "from_dict now d = Inr t"
  shows "\<exists>kvs v_id v_title ts.
           d = PDict kvs
           \<and> map_of kvs ''id'' = Some v_id \<and> py_int v_id = Inr (task_id t)
           \<and> map_of kvs ''title'' = Some v_title \<and> title t = str v_title
           \<and> description t = (case map_of kvs ''description'' of None \<Rightarrow> [] | Some v \<Rightarrow> str v)
           \<and> created_at t = (case map_of kvs ''created_at'' of None \<Rightarrow> now | Some v \<Rightarrow> str v)
           \<and> due t = (case map_of kvs ''due'' of None \<Rightarrow> PNone | Some v \<Rightarrow> v)
           \<and> py_list (case map_of kvs ''tags'' of None \<Rightarrow> PList [] | Some v \<Rightarrow> v) = Inr (tags t)
           \<and> done_flag t = (case map_of kvs ''done'' of None \<Rightarrow> False | Some v \<Rightarrow> py_bool v)"
proof (cases d)
  case (PDict kvs)
  from assms have "from_dict_body now d = Inr t"
    by (simp add: from_dict_Inr)
  then show ?thesis
    unfolding from_dict_body_def PDict get_PDict propagate_Inr_left
    by (auto simp: propagate_Inr split: option.splits simp del: get.simps)
qed (use assms in \<open>simp_all add: from_dict_def from_dict_body_def propagate_def\<close>)

lemma from_dict_missing_key:
  "map_of kvs ''id'' = None \<or> map_of kvs ''title'' = None
   \<Longrightarrow> from_dict now (PDict kvs) = Inl ValueError"
  using from_dict_fields [of now "PDict kvs"] from_dict_exn [of now "PDict kvs"]
  by (cases "from_dict now (PDict kvs)") auto

lemma from_dict_bad_id:
  "map_of kvs ''id'' = Some v \<Longrightarrow> py_int v = Inl e
   \<Longrightarrow> from_dict now (PDict kvs) = Inl ValueError"
  using from_dict_fields [of now "PDict kvs"] from_dict_exn [of now "PDict kvs"]
  by (cases "from_dict now (PDict kvs)") auto

lemma from_dict_defaults:
  "from_dict now (PDict [(''id'', PInt i), (''title'', PStr s)])
   = Inr \<lparr>task_id = i, title = s, description = [], created_at = now, due = PNone, tags = [],
          done_flag = False\<rparr>"
  by (simp add: from_dict_def from_dict_body_def propagate_def)

end
